theory Spec2Isabelle
  imports Complex_Main
begin

section \<open>The simulation core of MedievalRunner.tsx\<close>

text \<open>
  The component keeps two pieces of state: the mutable object \<^verbatim>\<open>gameRef.current\<close>
  (player, obstacles, gems, jump flag and velocity, speed, score, lane) and the React
  state \<^verbatim>\<open>gameState\<close> (score, isPlaying, isGameOver, highScore).  The file holds two
  variants of the component; the second one adds \<^verbatim>\<open>currentLane\<close>, \<^verbatim>\<open>moveLeft\<close> and
  \<^verbatim>\<open>moveRight\<close> and has its own constants for the size of an obstacle; in everything
  else (jump, start, the frame loop, the handlers for Space and click) the two agree line
  by line.  The second variant is the one embedded here.

  How the code is read:
  \<^item> JavaScript numbers are exact reals; the score and the lane, which only ever hold
    integers, are \<open>int\<close>.  A coordinate that can receive the result of an array read
    is a \<open>real option\<close>: \<open>None\<close> is JavaScript's \<^verbatim>\<open>undefined\<close>, which the
    comparisons of the collision tests turn into \<^verbatim>\<open>NaN < 1\<close>, that is false.
  \<^item> An updater passed to \<^verbatim>\<open>setGameState\<close> is applied when it is dispatched, so
    the value it reads off \<^verbatim>\<open>gameRef.current.score\<close> is the score at that moment.
  \<^item> \<^verbatim>\<open>gameLoop\<close> and the input handlers read \<^verbatim>\<open>gameState\<close> as it is when they
    run; the closures of the component are re-created whenever the fields they read
    change.  Scheduling (\<^verbatim>\<open>requestAnimationFrame\<close>, its cancellation) is not part of
    the model: a run is a list of events, frames among them, and a frame does its work
    only in the Playing phase.
  \<^item> Scene, camera, renderer, materials and colours are presentation and are left out.
\<close>

subsection \<open>Data\<close>

record obstacle =
  ox :: "real option"
  oy :: real
  oz :: real
  owidth :: real
  oheight :: real

record gem =
  gx :: "real option"
  gy :: real
  gz :: real
  grot :: real

record game =
  px :: "real option"
  py :: real
  pz :: real
  obstacles :: "obstacle list"
  gems :: "gem list"
  isJumping :: bool
  jumpVelocity :: real
  speed :: real
  score :: int
  currentLane :: int

record GameState =
  stateScore :: int
  isPlaying :: bool
  isGameOver :: bool
  highScore :: int

text \<open>
  The three updater functions the component passes to \<^verbatim>\<open>setGameState\<close>.  The two that
  read \<^verbatim>\<open>gameRef.current.score\<close> carry the value read when they are dispatched.
\<close>

datatype update = StartUpdate | GameOverUpdate int | ScoreUpdate int

fun applyUpdate :: "update \<Rightarrow> GameState \<Rightarrow> GameState" where
  "applyUpdate StartUpdate prev = prev\<lparr>stateScore := 0, isPlaying := True, isGameOver := False\<rparr>"
| "applyUpdate (GameOverUpdate s) prev =
     prev\<lparr>isPlaying := False, isGameOver := True, highScore := max (highScore prev) s\<rparr>"
| "applyUpdate (ScoreUpdate s) prev = prev\<lparr>stateScore := s\<rparr>"

text \<open>
  \<open>container\<close> says whether \<^verbatim>\<open>containerRef.current\<close> is set; \<open>gameRef\<close> is
  \<^verbatim>\<open>gameRef.current\<close>, \<open>None\<close> for null; \<open>updates\<close> is the trace of the calls of
  \<^verbatim>\<open>setGameState\<close>, oldest first.
\<close>

record world =
  container :: bool
  gameRef :: "game option"
  gameState :: GameState
  updates :: "update list"

definition setGameState :: "update \<Rightarrow> world \<Rightarrow> world" where
  "setGameState u w = w\<lparr>gameState := applyUpdate u (gameState w), updates := updates w @ [u]\<rparr>"

definition dispatchAll :: "update list \<Rightarrow> world \<Rightarrow> world" where
  "dispatchAll us w = foldl (\<lambda>w' u. setGameState u w') w us"

subsection \<open>Lanes\<close>

definition lanes :: "real list" where
  "lanes = [-2, 0, 2]"

text \<open>The array read \<^verbatim>\<open>lanes[i]\<close>: \<^verbatim>\<open>undefined\<close> outside the array.\<close>

definition lanes_at :: "int \<Rightarrow> real option" where
  "lanes_at i = (if 0 \<le> i \<and> i < int (length lanes) then Some (lanes ! nat i) else None)"

text \<open>\<^verbatim>\<open>Math.abs(a - b) < 1\<close> on two coordinates.\<close>

definition near :: "real option \<Rightarrow> real option \<Rightarrow> bool" where
  "near a b = (case a of None \<Rightarrow> False
               | Some u \<Rightarrow> (case b of None \<Rightarrow> False | Some v \<Rightarrow> \<bar>u - v\<bar> < 1))"

subsection \<open>Array operations\<close>

text \<open>\<^verbatim>\<open>xs.splice(index, 1)\<close>: nothing is removed when the index is past the end.\<close>

definition spliceAt :: "nat \<Rightarrow> 'a list \<Rightarrow> 'a list" where
  "spliceAt index xs = take index xs @ drop (Suc index) xs"

text \<open>
  \<^verbatim>\<open>Array.prototype.forEach\<close>: the length is read once, before the first call; index
  \<open>k\<close> runs from 0 to that length, and the callback is called at \<open>k\<close> only when the
  array, as it is by then, still has an element there.  \<open>len\<close> reads the array's
  current length off the state, \<open>n\<close> counts the indices still to visit.
\<close>

fun forEachFrom :: "('s \<Rightarrow> nat) \<Rightarrow> (nat \<Rightarrow> 's \<Rightarrow> 's) \<Rightarrow> nat \<Rightarrow> nat \<Rightarrow> 's \<Rightarrow> 's" where
  "forEachFrom len cb 0 k s = s"
| "forEachFrom len cb (Suc n) k s =
     forEachFrom len cb n (Suc k) (if k < len s then cb k s else s)"

definition forEach :: "('s \<Rightarrow> nat) \<Rightarrow> (nat \<Rightarrow> 's \<Rightarrow> 's) \<Rightarrow> 's \<Rightarrow> 's" where
  "forEach len cb s = forEachFrom len cb (len s) 0 s"

subsection \<open>Initialisation, jump, lane switching, start\<close>

definition initialGame :: game where
  "initialGame = \<lparr>px = Some 0, py = 0.6, pz = 5, obstacles = [], gems = [],
     isJumping = False, jumpVelocity = 0, speed = 0.15, score = 0, currentLane = 1\<rparr>"

definition initGame :: "world \<Rightarrow> world" where
  "initGame w = (if \<not> container w then w else w\<lparr>gameRef := Some initialGame\<rparr>)"

definition jump :: "world \<Rightarrow> world" where
  "jump w = (case gameRef w of
      None \<Rightarrow> w
    | Some g \<Rightarrow> if isJumping g then w
                else w\<lparr>gameRef := Some (g\<lparr>isJumping := True, jumpVelocity := 0.25\<rparr>)\<rparr>)"

definition moveLeft :: "world \<Rightarrow> world" where
  "moveLeft w = (case gameRef w of
      None \<Rightarrow> w
    | Some g \<Rightarrow> if currentLane g > 0
                then w\<lparr>gameRef := Some (g\<lparr>currentLane := currentLane g - 1,
                                            px := lanes_at (currentLane g - 1)\<rparr>)\<rparr>
                else w)"

definition moveRight :: "world \<Rightarrow> world" where
  "moveRight w = (case gameRef w of
      None \<Rightarrow> w
    | Some g \<Rightarrow> if currentLane g < 2
                then w\<lparr>gameRef := Some (g\<lparr>currentLane := currentLane g + 1,
                                            px := lanes_at (currentLane g + 1)\<rparr>)\<rparr>
                else w)"

text \<open>The block under \<^verbatim>\<open>// Reset game state\<close> of \<^verbatim>\<open>startGame\<close>.\<close>

definition resetGame :: "game \<Rightarrow> game" where
  "resetGame g = g\<lparr>obstacles := [], gems := [], px := Some 0, py := 0.6, pz := 5,
     speed := 0.15, score := 0, currentLane := 1\<rparr>"

definition startGame :: "world \<Rightarrow> world" where
  "startGame w =
     (let w1 = (if gameRef w = None then initGame w else w);
          w2 = (case gameRef w1 of None \<Rightarrow> w1 | Some g \<Rightarrow> w1\<lparr>gameRef := Some (resetGame g)\<rparr>)
      in setGameState StartUpdate w2)"

subsection \<open>One frame: \<^verbatim>\<open>gameLoop\<close>\<close>

text \<open>
  What a frame takes from outside: the values of \<^verbatim>\<open>Date.now()\<close> (one call per gem,
  indexed by the gem's place in the array) and of the calls of \<^verbatim>\<open>Math.random()\<close> that
  decide anything but a colour.
\<close>

record env =
  dateNow :: "nat \<Rightarrow> real"
  rndObstacle :: real
  rndWidth :: real
  rndHeight :: real
  rndObstacleLane :: real
  rndGem :: real
  rndGemLane :: real

definition jumpPhysics :: "game \<Rightarrow> game" where
  "jumpPhysics g =
     (if isJumping g
      then (let g1 = g\<lparr>py := py g + jumpVelocity g, jumpVelocity := jumpVelocity g - 0.015\<rparr>
            in if py g1 \<le> 0.6
               then g1\<lparr>py := 0.6, isJumping := False, jumpVelocity := 0\<rparr>
               else g1)
      else g)"

definition bobY :: "real \<Rightarrow> real \<Rightarrow> real" where
  "bobY now z = 1.5 + sin (now * 0.003 + z) * 0.2"

definition rotateGems :: "env \<Rightarrow> game \<Rightarrow> game" where
  "rotateGems e g = g\<lparr>gems :=
     map (\<lambda>(i, gm). gm\<lparr>grot := grot gm + 0.05, gy := bobY (dateNow e i) (gz gm)\<rparr>)
       (enumerate 0 (gems g))\<rparr>"

definition collides :: "game \<Rightarrow> obstacle \<Rightarrow> bool" where
  "collides g ob \<longleftrightarrow>
     near (ox ob) (px g) \<and> \<bar>oz ob - pz g\<bar> < 1 \<and> py g < oheight ob + 0.3"

definition collects :: "game \<Rightarrow> gem \<Rightarrow> bool" where
  "collects g gm \<longleftrightarrow>
     near (gx gm) (px g) \<and> \<bar>gz gm - pz g\<bar> < 1 \<and> \<bar>gy gm - py g\<bar> < 1.5"

text \<open>
  The callback of \<^verbatim>\<open>obstacles.forEach\<close>.  The obstacle is moved in place; on a collision
  the game-over updater is dispatched and the callback returns; otherwise the obstacle
  is spliced out at \<open>index\<close> once it is past depth 10.
\<close>

definition obstacleStep :: "real \<Rightarrow> nat \<Rightarrow> game \<times> update list \<Rightarrow> game \<times> update list" where
  "obstacleStep sp index s =
     (let g = fst s; us = snd s;
          ob = (obstacles g ! index)\<lparr>oz := oz (obstacles g ! index) + sp\<rparr>;
          g1 = g\<lparr>obstacles := (obstacles g)[index := ob]\<rparr>
      in if collides g1 ob then (g1, us @ [GameOverUpdate (score g1)])
         else if oz ob > 10 then (g1\<lparr>obstacles := spliceAt index (obstacles g1)\<rparr>, us)
         else (g1, us))"

text \<open>
  The callback of \<^verbatim>\<open>gems.forEach\<close>: two independent \<^verbatim>\<open>if\<close>s, each splicing at \<open>index\<close>.
\<close>

definition gemStep :: "real \<Rightarrow> nat \<Rightarrow> game \<times> update list \<Rightarrow> game \<times> update list" where
  "gemStep sp index s =
     (let g = fst s; us = snd s;
          gm = (gems g ! index)\<lparr>gz := gz (gems g ! index) + sp\<rparr>;
          g1 = g\<lparr>gems := (gems g)[index := gm]\<rparr>;
          s2 = (if collects g1 gm
                then (g1\<lparr>gems := spliceAt index (gems g1), score := score g1 + 10\<rparr>,
                      us @ [ScoreUpdate (score g1 + 10)])
                else (g1, us))
      in if gz gm > 10
         then ((fst s2)\<lparr>gems := spliceAt index (gems (fst s2))\<rparr>, snd s2)
         else s2)"

definition createObstacle :: "env \<Rightarrow> game \<Rightarrow> game" where
  "createObstacle e g =
     (let width = 1.2 + rndWidth e * 1.2;
          height = 0.9 + rndHeight e * 0.7
      in g\<lparr>obstacles := obstacles g @
            [\<lparr>ox = lanes_at \<lfloor>rndObstacleLane e * real (length lanes)\<rfloor>, oy = height / 2,
              oz = - 40, owidth = width, oheight = height\<rparr>]\<rparr>)"

definition createGem :: "env \<Rightarrow> game \<Rightarrow> game" where
  "createGem e g =
     g\<lparr>gems := gems g @
        [\<lparr>gx = lanes_at \<lfloor>rndGemLane e * real (length lanes)\<rfloor>, gy = 1.5, gz = - 40,
          grot = 0\<rparr>]\<rparr>"

definition obstaclesLoop :: "real \<Rightarrow> game \<times> update list \<Rightarrow> game \<times> update list" where
  "obstaclesLoop sp = forEach (\<lambda>s. length (obstacles (fst s))) (obstacleStep sp)"

definition gemsLoop :: "real \<Rightarrow> game \<times> update list \<Rightarrow> game \<times> update list" where
  "gemsLoop sp = forEach (\<lambda>s. length (gems (fst s))) (gemStep sp)"

definition spawn :: "env \<Rightarrow> game \<Rightarrow> game" where
  "spawn e g =
     (let g1 = (if rndObstacle e < 0.02 then createObstacle e g else g)
      in if rndGem e < 0.015 then createGem e g1 else g1)"

text \<open>
  The body of \<^verbatim>\<open>gameLoop\<close> on the game object, with the updaters it dispatches, in
  the order of the code: jump physics, the bob of the gems, the speed read once, the loop
  over the obstacles, the loop over the gems, the two spawn draws, the speed increment.
  Nothing in the body reads the React state, so \<open>gameLoop\<close> below applies the
  updaters, in the order of their dispatch, once the body is through.
\<close>

definition frame :: "env \<Rightarrow> game \<Rightarrow> game \<times> update list" where
  "frame e g =
     (let g2 = rotateGems e (jumpPhysics g);
          s4 = gemsLoop (speed g2) (obstaclesLoop (speed g2) (g2, []));
          g6 = spawn e (fst s4)
      in (g6\<lparr>speed := speed g6 + 0.00002\<rparr>, snd s4))"

definition gameLoop :: "env \<Rightarrow> world \<Rightarrow> world" where
  "gameLoop e w = (case gameRef w of
      None \<Rightarrow> w
    | Some g \<Rightarrow> if \<not> isPlaying (gameState w) then w
                else dispatchAll (snd (frame e g)) (w\<lparr>gameRef := Some (fst (frame e g))\<rparr>))"

subsection \<open>Input handlers and runs\<close>

definition handleKeyDown :: "string \<Rightarrow> world \<Rightarrow> world" where
  "handleKeyDown code w =
     (let st = gameState w;
          w1 = (if code = ''Space''
                then (if \<not> isPlaying st \<and> \<not> isGameOver st then startGame w
                      else if isPlaying st then jump w
                      else if isGameOver st then startGame w
                      else w)
                else w)
      in if isPlaying st
         then (let w2 = (if code = ''ArrowLeft'' \<or> code = ''KeyA'' then moveLeft w1 else w1)
               in if code = ''ArrowRight'' \<or> code = ''KeyD'' then moveRight w2 else w2)
         else w1)"

definition handleClick :: "world \<Rightarrow> world" where
  "handleClick w =
     (let st = gameState w
      in if \<not> isPlaying st \<and> \<not> isGameOver st then startGame w
         else if isPlaying st then jump w
         else w)"

text \<open>
  What can happen to the component: an animation frame, a key, a click on the window, a
  click on a Start or Restart button (\<^verbatim>\<open>onClick={startGame}\<close>), and a direct call of
  one of the three player actions.
\<close>

datatype event =
  Frame env | KeyDown string | Click | StartButton | CallJump | CallMoveLeft | CallMoveRight

fun step :: "event \<Rightarrow> world \<Rightarrow> world" where
  "step (Frame e) w = gameLoop e w"
| "step (KeyDown code) w = handleKeyDown code w"
| "step Click w = handleClick w"
| "step StartButton w = startGame w"
| "step CallJump w = jump w"
| "step CallMoveLeft w = moveLeft w"
| "step CallMoveRight w = moveRight w"

definition run :: "event list \<Rightarrow> world \<Rightarrow> world" where
  "run evs w = foldl (\<lambda>w' ev. step ev w') w evs"

definition newWorld :: "bool \<Rightarrow> world" where
  "newWorld c = \<lparr>container = c, gameRef = None,
     gameState = \<lparr>stateScore = 0, isPlaying = False, isGameOver = False, highScore = 0\<rparr>,
     updates = []\<rparr>"

text \<open>The component after its mount effect has run \<^verbatim>\<open>initGame\<close>.\<close>

definition mounted :: "bool \<Rightarrow> world" where
  "mounted c = initGame (newWorld c)"

section \<open>What one frame changes\<close>

lemma forEachFrom_inv:
  assumes "\<And>k s. P s \<Longrightarrow> k < len s \<Longrightarrow> P (cb k s)" and "P s"
  shows "P (forEachFrom len cb n k s)"
  using assms(2) by (induction n arbitrary: k s) (auto intro: assms(1))

lemma forEach_inv:
  assumes "\<And>k s. P s \<Longrightarrow> k < len s \<Longrightarrow> P (cb k s)" and "P s"
  shows "P (forEach len cb s)"
  unfolding forEach_def using assms by (rule forEachFrom_inv)

lemma obstacleStep_rest:
  "(fst (obstacleStep sp k s))\<lparr>obstacles := []\<rparr> = (fst s)\<lparr>obstacles := []\<rparr>"
  by (simp add: obstacleStep_def Let_def)

lemma obstaclesLoop_rest:
  "(fst (obstaclesLoop sp s))\<lparr>obstacles := []\<rparr> = (fst s)\<lparr>obstacles := []\<rparr>"
  unfolding obstaclesLoop_def
  by (rule forEach_inv [where P = "\<lambda>t. (fst t)\<lparr>obstacles := []\<rparr> = (fst s)\<lparr>obstacles := []\<rparr>"])
     (simp_all add: obstacleStep_rest)

lemma gemStep_rest:
  "(fst (gemStep sp k s))\<lparr>gems := [], score := 0\<rparr> = (fst s)\<lparr>gems := [], score := 0\<rparr>"
  by (simp add: gemStep_def Let_def)

lemma gemsLoop_rest:
  "(fst (gemsLoop sp s))\<lparr>gems := [], score := 0\<rparr> = (fst s)\<lparr>gems := [], score := 0\<rparr>"
  unfolding gemsLoop_def
  by (rule forEach_inv [where P = "\<lambda>t. (fst t)\<lparr>gems := [], score := 0\<rparr> = (fst s)\<lparr>gems := [], score := 0\<rparr>"])
     (simp_all add: gemStep_rest)

lemma frame_rest:
  "(fst (frame e g))\<lparr>obstacles := [], gems := [], score := 0, speed := 0\<rparr>
     = (jumpPhysics g)\<lparr>obstacles := [], gems := [], score := 0, speed := 0\<rparr>"
proof -
  let ?g2 = "rotateGems e (jumpPhysics g)"
  let ?s3 = "obstaclesLoop (speed ?g2) (?g2, [])"
  let ?s4 = "gemsLoop (speed ?g2) ?s3"
  have a: "(fst ?s3)\<lparr>obstacles := []\<rparr> = ?g2\<lparr>obstacles := []\<rparr>"
    using obstaclesLoop_rest [of "speed ?g2" "(?g2, [])"] by simp
  have b: "(fst ?s4)\<lparr>gems := [], score := 0\<rparr> = (fst ?s3)\<lparr>gems := [], score := 0\<rparr>"
    by (rule gemsLoop_rest)
  have c: "(spawn e h)\<lparr>obstacles := [], gems := []\<rparr> = h\<lparr>obstacles := [], gems := []\<rparr>" for h
    by (simp add: spawn_def createObstacle_def createGem_def Let_def)
  have "(fst (frame e g))\<lparr>obstacles := [], gems := [], score := 0, speed := 0\<rparr>
      = ((spawn e (fst ?s4))\<lparr>obstacles := [], gems := []\<rparr>)\<lparr>score := 0, speed := 0\<rparr>"
    by (simp add: frame_def Let_def)
  also have "\<dots> = ((fst ?s4)\<lparr>gems := [], score := 0\<rparr>)\<lparr>obstacles := [], speed := 0\<rparr>"
    by (simp add: c)
  also have "\<dots> = ((fst ?s3)\<lparr>obstacles := []\<rparr>)\<lparr>gems := [], score := 0, speed := 0\<rparr>"
    by (simp add: b)
  also have "\<dots> = ?g2\<lparr>obstacles := [], gems := [], score := 0, speed := 0\<rparr>"
    by (simp add: a)
  also have "\<dots> = (jumpPhysics g)\<lparr>obstacles := [], gems := [], score := 0, speed := 0\<rparr>"
    by (simp add: rotateGems_def)
  finally show ?thesis .
qed

lemma frame_py: "py (fst (frame e g)) = py (jumpPhysics g)"
  using arg_cong [OF frame_rest, of py] by simp


lemma obstaclesLoop_speed: "speed (fst (obstaclesLoop sp s)) = speed (fst s)"
  using arg_cong [OF obstaclesLoop_rest, of speed] by simp

lemma gemsLoop_speed: "speed (fst (gemsLoop sp s)) = speed (fst s)"
  using arg_cong [OF gemsLoop_rest, of speed] by simp

lemma jumpPhysics_speed: "speed (jumpPhysics g) = speed g"
  by (simp add: jumpPhysics_def Let_def)

lemma spawn_speed: "speed (spawn e g) = speed g"
  by (simp add: spawn_def createObstacle_def createGem_def Let_def)

lemma frame_speed: "speed (fst (frame e g)) = speed g + 0.00002"
  by (simp add: frame_def Let_def spawn_speed gemsLoop_speed obstaclesLoop_speed
      rotateGems_def jumpPhysics_speed)

lemma frame_px: "px (fst (frame e g)) = px g"
  using arg_cong [OF frame_rest, of px] by (simp add: jumpPhysics_def Let_def)

lemma frame_pz: "pz (fst (frame e g)) = pz g"
  using arg_cong [OF frame_rest, of pz] by (simp add: jumpPhysics_def Let_def)

lemma frame_currentLane: "currentLane (fst (frame e g)) = currentLane g"
  using arg_cong [OF frame_rest, of currentLane] by (simp add: jumpPhysics_def Let_def)

lemma jumpPhysics_ground: "0.6 \<le> py g \<Longrightarrow> 0.6 \<le> py (jumpPhysics g)"
  by (simp add: jumpPhysics_def Let_def)

lemma frame_ground: "0.6 \<le> py g \<Longrightarrow> 0.6 \<le> py (fst (frame e g))"
  by (simp only: frame_py jumpPhysics_ground)

subsection \<open>Score\<close>

definition tens :: "int \<Rightarrow> bool" where
  "tens n \<longleftrightarrow> 0 \<le> n \<and> 10 dvd n"

fun updateOk :: "update \<Rightarrow> bool" where
  "updateOk StartUpdate = True"
| "updateOk (GameOverUpdate s) = tens s"
| "updateOk (ScoreUpdate s) = tens s"

definition stateOk :: "GameState \<Rightarrow> bool" where
  "stateOk st \<longleftrightarrow> tens (stateScore st) \<and> tens (highScore st)"

lemma tens_add10: "tens n \<Longrightarrow> tens (n + 10)"
  by (simp add: tens_def)

lemma obstacleStep_score: "score (fst (obstacleStep sp k s)) = score (fst s)"
  using arg_cong [OF obstacleStep_rest, of score] by simp

lemma obstacleStep_updates:
  "tens (score (fst s)) \<Longrightarrow> list_all updateOk (snd s)
     \<Longrightarrow> list_all updateOk (snd (obstacleStep sp k s))"
  by (simp add: obstacleStep_def Let_def)

lemma obstaclesLoop_updates:
  assumes "tens (score (fst s))" and "list_all updateOk (snd s)"
  shows "tens (score (fst (obstaclesLoop sp s))) \<and> list_all updateOk (snd (obstaclesLoop sp s))"
  unfolding obstaclesLoop_def
  by (rule forEach_inv [where P = "\<lambda>t. tens (score (fst t)) \<and> list_all updateOk (snd t)"])
     (simp_all add: assms obstacleStep_score obstacleStep_updates)

lemma gemStep_updates:
  "tens (score (fst s)) \<and> list_all updateOk (snd s)
     \<Longrightarrow> tens (score (fst (gemStep sp k s))) \<and> list_all updateOk (snd (gemStep sp k s))"
  by (simp add: gemStep_def Let_def tens_add10)

lemma gemsLoop_updates:
  assumes "tens (score (fst s)) \<and> list_all updateOk (snd s)"
  shows "tens (score (fst (gemsLoop sp s))) \<and> list_all updateOk (snd (gemsLoop sp s))"
  unfolding gemsLoop_def
  by (rule forEach_inv [where P = "\<lambda>t. tens (score (fst t)) \<and> list_all updateOk (snd t)"])
     (simp_all add: assms gemStep_updates)

lemma jumpPhysics_score: "score (jumpPhysics g) = score g"
  by (simp add: jumpPhysics_def Let_def)

lemma spawn_score: "score (spawn e g) = score g"
  by (simp add: spawn_def createObstacle_def createGem_def Let_def)

lemma frame_tens:
  assumes "tens (score g)"
  shows "tens (score (fst (frame e g))) \<and> list_all updateOk (snd (frame e g))"
proof -
  let ?g2 = "rotateGems e (jumpPhysics g)"
  have "tens (score (fst (?g2, [])))" "list_all updateOk (snd (?g2, []))"
    using assms by (simp_all add: rotateGems_def jumpPhysics_score)
  then have "tens (score (fst (obstaclesLoop (speed ?g2) (?g2, []))))
      \<and> list_all updateOk (snd (obstaclesLoop (speed ?g2) (?g2, [])))"
    by (rule obstaclesLoop_updates)
  then have "tens (score (fst (gemsLoop (speed ?g2) (obstaclesLoop (speed ?g2) (?g2, [])))))
      \<and> list_all updateOk (snd (gemsLoop (speed ?g2) (obstaclesLoop (speed ?g2) (?g2, []))))"
    by (rule gemsLoop_updates)
  then show ?thesis
    by (simp add: frame_def Let_def spawn_score)
qed

lemma gemStep_score:
  "score (fst (gemStep sp k s)) = score (fst s) + (if collects ((fst s)\<lparr>gems := (gems (fst s))[k := (gems (fst s) ! k)\<lparr>gz := gz (gems (fst s) ! k) + sp\<rparr>]\<rparr>) ((gems (fst s) ! k)\<lparr>gz := gz (gems (fst s) ! k) + sp\<rparr>) then 10 else 0)"
  by (simp add: gemStep_def Let_def)

lemma gemsLoop_score: "\<exists>n. score (fst (gemsLoop sp s)) = score (fst s) + 10 * int n"
  unfolding gemsLoop_def
proof (rule forEach_inv [where P = "\<lambda>t. \<exists>n. score (fst t) = score (fst s) + 10 * int n"])
  fix k and t :: "game \<times> update list"
  assume "\<exists>n. score (fst t) = score (fst s) + 10 * int n"
  then obtain n where n: "score (fst t) = score (fst s) + 10 * int n" ..
  have "score (fst (gemStep sp k t)) = score (fst t) \<or> score (fst (gemStep sp k t)) = score (fst t) + 10"
    by (simp add: gemStep_score)
  then show "\<exists>m. score (fst (gemStep sp k t)) = score (fst s) + 10 * int m"
  proof
    assume "score (fst (gemStep sp k t)) = score (fst t)"
    with n have "score (fst (gemStep sp k t)) = score (fst s) + 10 * int n" by simp
    then show ?thesis ..
  next
    assume "score (fst (gemStep sp k t)) = score (fst t) + 10"
    with n have "score (fst (gemStep sp k t)) = score (fst s) + 10 * int (Suc n)" by simp
    then show ?thesis ..
  qed
next
  show "\<exists>n. score (fst s) = score (fst s) + 10 * int n"
    by (rule exI [of _ 0]) simp
qed

lemma obstaclesLoop_score: "score (fst (obstaclesLoop sp s)) = score (fst s)"
  using arg_cong [OF obstaclesLoop_rest, of score] by simp

lemma frame_score: "\<exists>n. score (fst (frame e g)) = score g + 10 * int n"
proof -
  let ?g2 = "rotateGems e (jumpPhysics g)"
  obtain n where "score (fst (gemsLoop (speed ?g2) (obstaclesLoop (speed ?g2) (?g2, []))))
      = score (fst (obstaclesLoop (speed ?g2) (?g2, []))) + 10 * int n"
    using gemsLoop_score by blast
  then have "score (fst (frame e g)) = score g + 10 * int n"
    by (simp add: frame_def Let_def spawn_score obstaclesLoop_score rotateGems_def jumpPhysics_score)
  then show ?thesis ..
qed

subsection \<open>Counting collected gems\<close>

fun isScoreUpdate :: "update \<Rightarrow> bool" where
  "isScoreUpdate (ScoreUpdate s) = True"
| "isScoreUpdate u = False"

definition collected :: "update list \<Rightarrow> nat" where
  "collected us = length (filter isScoreUpdate us)"

lemma obstacleStep_collected: "collected (snd (obstacleStep sp k s)) = collected (snd s)"
  by (simp add: obstacleStep_def Let_def collected_def)

lemma obstaclesLoop_collected: "collected (snd (obstaclesLoop sp s)) = collected (snd s)"
  unfolding obstaclesLoop_def
  by (rule forEach_inv [where P = "\<lambda>t. collected (snd t) = collected (snd s)"])
     (simp_all add: obstacleStep_collected)

lemma gemStep_collected:
  "score (fst (gemStep sp k s)) - 10 * int (collected (snd (gemStep sp k s)))
     = score (fst s) - 10 * int (collected (snd s))"
  by (simp add: gemStep_def Let_def collected_def)

lemma gemsLoop_collected:
  "score (fst (gemsLoop sp s)) - 10 * int (collected (snd (gemsLoop sp s)))
     = score (fst s) - 10 * int (collected (snd s))"
  unfolding gemsLoop_def
  by (rule forEach_inv [where P = "\<lambda>t. score (fst t) - 10 * int (collected (snd t))
        = score (fst s) - 10 * int (collected (snd s))"])
     (simp_all add: gemStep_collected)

lemma frame_collected:
  "score (fst (frame e g)) = score g + 10 * int (collected (snd (frame e g)))"
proof -
  let ?g2 = "rotateGems e (jumpPhysics g)"
  let ?s3 = "obstaclesLoop (speed ?g2) (?g2, [])"
  let ?s4 = "gemsLoop (speed ?g2) ?s3"
  have "score (fst ?s4) - 10 * int (collected (snd ?s4))
      = score (fst ?s3) - 10 * int (collected (snd ?s3))"
    by (rule gemsLoop_collected)
  also have "\<dots> = score ?g2 - 10 * int (collected [])"
    by (simp add: obstaclesLoop_collected obstaclesLoop_score)
  also have "\<dots> = score g"
    by (simp add: rotateGems_def jumpPhysics_score collected_def)
  finally have "score (fst ?s4) = score g + 10 * int (collected (snd ?s4))"
    by simp
  then show ?thesis
    by (simp add: frame_def Let_def spawn_score)
qed

subsection \<open>Depths\<close>

definition withinDepth :: "game \<Rightarrow> bool" where
  "withinDepth g \<longleftrightarrow>
     list_all (\<lambda>ob. oz ob \<le> 10) (obstacles g) \<and> list_all (\<lambda>gm. gz gm \<le> 10) (gems g)"

lemma set_spliceAt: "set (spliceAt k xs) \<subseteq> set xs"
  using set_take_subset [of k xs] set_drop_subset [of "Suc k" xs]
  by (auto simp: spliceAt_def)

lemma spliceAt_update: "spliceAt k (xs[k := v]) = spliceAt k xs"
  by (simp add: spliceAt_def)

lemma list_all_spliceAt: "list_all P xs \<Longrightarrow> list_all P (spliceAt k xs)"
  using set_spliceAt [of k xs] by (auto simp: list_all_iff)

lemma list_all_update: "list_all P xs \<Longrightarrow> P v \<Longrightarrow> list_all P (xs[k := v])"
  using set_update_subset_insert [of xs k v] by (auto simp: list_all_iff)

lemma obstacleStep_depth:
  assumes "pz (fst s) = 5" and "withinDepth (fst s)"
  shows "withinDepth (fst (obstacleStep sp k s))"
proof -
  let ?g = "fst s"
  let ?ob = "(obstacles ?g ! k)\<lparr>oz := oz (obstacles ?g ! k) + sp\<rparr>"
  let ?g1 = "?g\<lparr>obstacles := (obstacles ?g)[k := ?ob]\<rparr>"
  from assms(2) have o: "list_all (\<lambda>ob. oz ob \<le> 10) (obstacles ?g)"
    and m: "list_all (\<lambda>gm. gz gm \<le> 10) (gems ?g)"
    by (simp_all add: withinDepth_def)
  show ?thesis
  proof (cases "collides ?g1 ?ob")
    case True
    then have "\<bar>oz ?ob - 5\<bar> < 1"
      using assms(1) by (simp add: collides_def)
    then have "oz ?ob \<le> 10" by linarith
    with o have "list_all (\<lambda>ob. oz ob \<le> 10) ((obstacles ?g)[k := ?ob])"
      by (rule list_all_update)
    with m True show ?thesis
      by (simp add: obstacleStep_def Let_def withinDepth_def)
  next
    case False
    show ?thesis
    proof (cases "oz ?ob > 10")
      case True
      from o have "list_all (\<lambda>ob. oz ob \<le> 10) (spliceAt k (obstacles ?g))"
        by (rule list_all_spliceAt)
      with m True \<open>\<not> collides ?g1 ?ob\<close> show ?thesis
        by (simp add: obstacleStep_def Let_def withinDepth_def spliceAt_update)
    next
      case far: False
      then have "oz ?ob \<le> 10" by simp
      with o have "list_all (\<lambda>ob. oz ob \<le> 10) ((obstacles ?g)[k := ?ob])"
        by (rule list_all_update)
      with m far \<open>\<not> collides ?g1 ?ob\<close> show ?thesis
        by (simp add: obstacleStep_def Let_def withinDepth_def)
    qed
  qed
qed

lemma obstacleStep_pz: "pz (fst (obstacleStep sp k s)) = pz (fst s)"
  using arg_cong [OF obstacleStep_rest, of pz] by simp

lemma obstaclesLoop_depth:
  assumes "pz (fst s) = 5" and "withinDepth (fst s)"
  shows "withinDepth (fst (obstaclesLoop sp s))"
proof -
  have "pz (fst (obstaclesLoop sp s)) = 5 \<and> withinDepth (fst (obstaclesLoop sp s))"
    unfolding obstaclesLoop_def
    by (rule forEach_inv [where P = "\<lambda>t. pz (fst t) = 5 \<and> withinDepth (fst t)"])
       (simp_all add: assms obstacleStep_pz obstacleStep_depth)
  then show ?thesis ..
qed

lemma gemStep_depth:
  assumes "withinDepth (fst s)"
  shows "withinDepth (fst (gemStep sp k s))"
proof -
  let ?g = "fst s"
  let ?gm = "(gems ?g ! k)\<lparr>gz := gz (gems ?g ! k) + sp\<rparr>"
  let ?g1 = "?g\<lparr>gems := (gems ?g)[k := ?gm]\<rparr>"
  from assms have o: "list_all (\<lambda>ob. oz ob \<le> 10) (obstacles ?g)"
    and m: "list_all (\<lambda>gm. gz gm \<le> 10) (gems ?g)"
    by (simp_all add: withinDepth_def)
  have a: "list_all (\<lambda>gm. gz gm \<le> 10) (spliceAt k (gems ?g))"
    using m by (rule list_all_spliceAt)
  have b: "list_all (\<lambda>gm. gz gm \<le> 10) (spliceAt k (spliceAt k (gems ?g)))"
    using a by (rule list_all_spliceAt)
  have c: "\<not> gz ?gm > 10 \<Longrightarrow> list_all (\<lambda>gm. gz gm \<le> 10) ((gems ?g)[k := ?gm])"
    using m by (intro list_all_update) simp_all
  show ?thesis
    using o a b c
    by (simp add: gemStep_def Let_def withinDepth_def spliceAt_update)
qed

lemma gemsLoop_depth:
  assumes "withinDepth (fst s)"
  shows "withinDepth (fst (gemsLoop sp s))"
  unfolding gemsLoop_def
  by (rule forEach_inv [where P = "\<lambda>t. withinDepth (fst t)"]) (simp_all add: assms gemStep_depth)

lemma rotateGems_depth: "withinDepth (rotateGems e g) = withinDepth g"
proof -
  let ?f = "\<lambda>(i, gm). gm\<lparr>grot := grot gm + 0.05, gy := bobY (dateNow e i) (gz gm)\<rparr>"
  have "list_all (\<lambda>gm. gz gm \<le> 10) (map ?f (enumerate 0 (gems g)))
      = list_all ((\<lambda>gm. gz gm \<le> 10) \<circ> snd) (enumerate 0 (gems g))"
    by (simp add: list.pred_map comp_def split_beta)
  also have "\<dots> = list_all (\<lambda>gm. gz gm \<le> 10) (map snd (enumerate 0 (gems g)))"
    by (simp only: list.pred_map)
  also have "\<dots> = list_all (\<lambda>gm. gz gm \<le> 10) (gems g)"
    by (simp only: map_snd_enumerate)
  finally show ?thesis
    by (simp add: withinDepth_def rotateGems_def)
qed

lemma spawn_depth: "withinDepth g \<Longrightarrow> withinDepth (spawn e g)"
  by (simp add: withinDepth_def spawn_def createObstacle_def createGem_def Let_def)

lemma jumpPhysics_depth: "withinDepth (jumpPhysics g) = withinDepth g"
  by (simp add: withinDepth_def jumpPhysics_def Let_def)

lemma frame_depth:
  assumes "pz g = 5" and "withinDepth g"
  shows "withinDepth (fst (frame e g))"
proof -
  let ?g2 = "rotateGems e (jumpPhysics g)"
  have "pz (fst (?g2, [])) = 5" and "withinDepth (fst (?g2, []))"
    using assms by (simp_all add: rotateGems_depth jumpPhysics_depth)
       (simp add: rotateGems_def jumpPhysics_def Let_def)
  then have "withinDepth (fst (obstaclesLoop (speed ?g2) (?g2, [])))"
    by (rule obstaclesLoop_depth)
  then have "withinDepth (fst (gemsLoop (speed ?g2) (obstaclesLoop (speed ?g2) (?g2, []))))"
    by (rule gemsLoop_depth)
  then have "withinDepth (spawn e (fst (gemsLoop (speed ?g2) (obstaclesLoop (speed ?g2) (?g2, [])))))"
    by (rule spawn_depth)
  then show ?thesis
    by (simp add: frame_def Let_def withinDepth_def)
qed

subsection \<open>Frames in which no array entry is removed\<close>

definition moveObstacle :: "real \<Rightarrow> obstacle \<Rightarrow> obstacle" where
  "moveObstacle sp ob = ob\<lparr>oz := oz ob + sp\<rparr>"

definition moveGem :: "real \<Rightarrow> gem \<Rightarrow> gem" where
  "moveGem sp gm = gm\<lparr>gz := gz gm + sp\<rparr>"

lemma visited_prefix:
  assumes "k < length xs"
  shows "(map f (take k xs) @ drop k xs) ! k = xs ! k"
    and "(map f (take k xs) @ drop k xs)[k := f (xs ! k)]
           = map f (take (Suc k) xs) @ drop (Suc k) xs"
proof -
  have l: "length (map f (take k xs)) = k"
    using assms by simp
  have d: "drop k xs = xs ! k # drop (Suc k) xs"
    using assms by (simp add: Cons_nth_drop_Suc)
  show "(map f (take k xs) @ drop k xs) ! k = xs ! k"
    using l d by (simp add: nth_append)
  have "(map f (take k xs) @ drop k xs)[k := f (xs ! k)]
      = map f (take k xs) @ (drop k xs)[0 := f (xs ! k)]"
    using l by (simp add: list_update_append)
  also have "\<dots> = map f (take k xs) @ f (xs ! k) # drop (Suc k) xs"
    using d by simp
  also have "\<dots> = map f (take (Suc k) xs) @ drop (Suc k) xs"
    using assms by (simp add: take_Suc_conv_app_nth)
  finally show "(map f (take k xs) @ drop k xs)[k := f (xs ! k)]
      = map f (take (Suc k) xs) @ drop (Suc k) xs" .
qed

lemma collides_frame [simp]: "collides (g\<lparr>obstacles := xs\<rparr>) ob = collides g ob"
  by (simp add: collides_def)

lemma collects_frame [simp]: "collects (g\<lparr>gems := xs\<rparr>) gm = collects g gm"
  by (simp add: collects_def)

lemma obstaclesFrom_all:
  assumes "list_all (\<lambda>ob. collides g (moveObstacle sp ob) \<or> oz ob + sp \<le> 10) (drop k obs)"
    and "k + n = length obs"
  shows "forEachFrom (\<lambda>s. length (obstacles (fst s))) (obstacleStep sp) n k
           (g\<lparr>obstacles := map (moveObstacle sp) (take k obs) @ drop k obs\<rparr>, us)
         = (g\<lparr>obstacles := map (moveObstacle sp) obs\<rparr>,
            us @ map (\<lambda>ob. GameOverUpdate (score g))
                   (filter (\<lambda>ob. collides g (moveObstacle sp ob)) (drop k obs)))"
  using assms
proof (induction n arbitrary: k us)
  case 0
  then show ?case by simp
next
  case (Suc n)
  then have k: "k < length obs" by simp
  let ?L = "map (moveObstacle sp) (take k obs) @ drop k obs"
  let ?ob = "moveObstacle sp (obs ! k)"
  have d: "drop k obs = obs ! k # drop (Suc k) obs"
    using k by (simp add: Cons_nth_drop_Suc)
  from Suc.prems(1) d
  have here: "collides g ?ob \<or> oz (obs ! k) + sp \<le> 10"
    and rest: "list_all (\<lambda>ob. collides g (moveObstacle sp ob) \<or> oz ob + sp \<le> 10)
        (drop (Suc k) obs)"
    by simp_all
  have step: "obstacleStep sp k (g\<lparr>obstacles := ?L\<rparr>, us)
      = (g\<lparr>obstacles := map (moveObstacle sp) (take (Suc k) obs) @ drop (Suc k) obs\<rparr>,
         us @ (if collides g ?ob then [GameOverUpdate (score g)] else []))"
    using here visited_prefix [OF k, of "moveObstacle sp"]
    by (auto simp: obstacleStep_def Let_def moveObstacle_def)
  have "forEachFrom (\<lambda>s. length (obstacles (fst s))) (obstacleStep sp) (Suc n) k
          (g\<lparr>obstacles := ?L\<rparr>, us)
      = forEachFrom (\<lambda>s. length (obstacles (fst s))) (obstacleStep sp) n (Suc k)
          (obstacleStep sp k (g\<lparr>obstacles := ?L\<rparr>, us))"
    using k by simp
  also have "\<dots> = (g\<lparr>obstacles := map (moveObstacle sp) obs\<rparr>,
      (us @ (if collides g ?ob then [GameOverUpdate (score g)] else []))
        @ map (\<lambda>ob. GameOverUpdate (score g))
            (filter (\<lambda>ob. collides g (moveObstacle sp ob)) (drop (Suc k) obs)))"
    unfolding step using rest Suc.prems(2) by (intro Suc.IH) simp_all
  also have "\<dots> = (g\<lparr>obstacles := map (moveObstacle sp) obs\<rparr>,
      us @ map (\<lambda>ob. GameOverUpdate (score g))
            (filter (\<lambda>ob. collides g (moveObstacle sp ob)) (drop k obs)))"
    by (simp add: d)
  finally show ?case .
qed

lemma obstaclesLoop_all:
  assumes "list_all (\<lambda>ob. collides g (moveObstacle sp ob) \<or> oz ob + sp \<le> 10) (obstacles g)"
  shows "obstaclesLoop sp (g, us)
         = (g\<lparr>obstacles := map (moveObstacle sp) (obstacles g)\<rparr>,
            us @ map (\<lambda>ob. GameOverUpdate (score g))
                   (filter (\<lambda>ob. collides g (moveObstacle sp ob)) (obstacles g)))"
  using obstaclesFrom_all [of g sp 0 "obstacles g" "length (obstacles g)" us] assms
  by (simp add: obstaclesLoop_def forEach_def)

lemma gemsFrom_all:
  assumes "list_all (\<lambda>gm. \<not> collects g (moveGem sp gm) \<and> gz gm + sp \<le> 10) (drop k gs)"
    and "k + n = length gs"
  shows "forEachFrom (\<lambda>s. length (gems (fst s))) (gemStep sp) n k
           (g\<lparr>gems := map (moveGem sp) (take k gs) @ drop k gs\<rparr>, us)
         = (g\<lparr>gems := map (moveGem sp) gs\<rparr>, us)"
  using assms
proof (induction n arbitrary: k)
  case 0
  then show ?case by simp
next
  case (Suc n)
  then have k: "k < length gs" by simp
  let ?L = "map (moveGem sp) (take k gs) @ drop k gs"
  have d: "drop k gs = gs ! k # drop (Suc k) gs"
    using k by (simp add: Cons_nth_drop_Suc)
  from Suc.prems(1) d
  have here: "\<not> collects g (moveGem sp (gs ! k))" "gz (gs ! k) + sp \<le> 10"
    and rest: "list_all (\<lambda>gm. \<not> collects g (moveGem sp gm) \<and> gz gm + sp \<le> 10)
        (drop (Suc k) gs)"
    by simp_all
  have step: "gemStep sp k (g\<lparr>gems := ?L\<rparr>, us)
      = (g\<lparr>gems := map (moveGem sp) (take (Suc k) gs) @ drop (Suc k) gs\<rparr>, us)"
    using here visited_prefix [OF k, of "moveGem sp"]
    by (auto simp: gemStep_def Let_def moveGem_def)
  have "forEachFrom (\<lambda>s. length (gems (fst s))) (gemStep sp) (Suc n) k (g\<lparr>gems := ?L\<rparr>, us)
      = forEachFrom (\<lambda>s. length (gems (fst s))) (gemStep sp) n (Suc k)
          (gemStep sp k (g\<lparr>gems := ?L\<rparr>, us))"
    using k by simp
  also have "\<dots> = (g\<lparr>gems := map (moveGem sp) gs\<rparr>, us)"
    unfolding step using rest Suc.prems(2) by (intro Suc.IH) simp_all
  finally show ?case .
qed

lemma gemsLoop_all:
  assumes "list_all (\<lambda>gm. \<not> collects g (moveGem sp gm) \<and> gz gm + sp \<le> 10) (gems g)"
  shows "gemsLoop sp (g, us) = (g\<lparr>gems := map (moveGem sp) (gems g)\<rparr>, us)"
  using gemsFrom_all [of g sp 0 "gems g" "length (gems g)" us] assms
  by (simp add: gemsLoop_def forEach_def)

text \<open>
  A frame in which no obstacle is hit or passes depth 10 and no gem is collected or passes
  depth 10 moves every entry of both arrays and dispatches nothing.
\<close>

definition uneventful :: "env \<Rightarrow> game \<Rightarrow> bool" where
  "uneventful e g \<longleftrightarrow>
     (let g2 = rotateGems e (jumpPhysics g)
      in list_all (\<lambda>ob. \<not> collides g2 (moveObstacle (speed g) ob) \<and> oz ob + speed g \<le> 10)
           (obstacles g2)
       \<and> list_all (\<lambda>gm. \<not> collects g2 (moveGem (speed g) gm) \<and> gz gm + speed g \<le> 10)
           (gems g2))"

definition coast :: "env \<Rightarrow> game \<Rightarrow> game" where
  "coast e g =
     (let g2 = rotateGems e (jumpPhysics g)
      in (spawn e (g2\<lparr>obstacles := map (moveObstacle (speed g)) (obstacles g2),
                       gems := map (moveGem (speed g)) (gems g2)\<rparr>))
           \<lparr>speed := speed g + 0.00002\<rparr>)"

lemma rotateGems_speed: "speed (rotateGems e g) = speed g"
  by (simp add: rotateGems_def)

lemma frame_uneventful:
  assumes "uneventful e g"
  shows "frame e g = (coast e g, [])"
proof -
  let ?g2 = "rotateGems e (jumpPhysics g)"
  let ?sp = "speed g"
  from assms
  have o: "list_all (\<lambda>ob. collides ?g2 (moveObstacle ?sp ob) \<or> oz ob + ?sp \<le> 10) (obstacles ?g2)"
    and no: "filter (\<lambda>ob. collides ?g2 (moveObstacle ?sp ob)) (obstacles ?g2) = []"
    and m: "list_all (\<lambda>gm. \<not> collects ?g2 (moveGem ?sp gm) \<and> gz gm + ?sp \<le> 10) (gems ?g2)"
    by (auto simp: uneventful_def Let_def list_all_iff filter_empty_conv)
  have sp: "speed ?g2 = ?sp"
    by (simp add: jumpPhysics_speed rotateGems_speed)
  have a: "obstaclesLoop ?sp (?g2, []) = (?g2\<lparr>obstacles := map (moveObstacle ?sp) (obstacles ?g2)\<rparr>, [])"
    using obstaclesLoop_all [OF o, of "[]"] no by simp
  have m': "list_all (\<lambda>gm. \<not> collects (?g2\<lparr>obstacles := map (moveObstacle ?sp) (obstacles ?g2)\<rparr>)
        (moveGem ?sp gm) \<and> gz gm + ?sp \<le> 10)
      (gems (?g2\<lparr>obstacles := map (moveObstacle ?sp) (obstacles ?g2)\<rparr>))"
    using m by (simp add: collects_def)
  have b: "gemsLoop ?sp (?g2\<lparr>obstacles := map (moveObstacle ?sp) (obstacles ?g2)\<rparr>, [])
      = (?g2\<lparr>obstacles := map (moveObstacle ?sp) (obstacles ?g2),
             gems := map (moveGem ?sp) (gems ?g2)\<rparr>, [])"
    using gemsLoop_all [OF m', of "[]"] by simp
  show ?thesis
    by (simp add: frame_def coast_def Let_def sp a b spawn_speed)
qed

lemma gameLoop_uneventful:
  assumes "isPlaying st" and "uneventful e g"
  shows "gameLoop e \<lparr>container = c, gameRef = Some g, gameState = st, updates = us\<rparr>
         = \<lparr>container = c, gameRef = Some (coast e g), gameState = st, updates = us\<rparr>"
  using assms by (simp add: gameLoop_def frame_uneventful dispatchAll_def)

subsection \<open>The phase after a frame\<close>

lemma gemStep_appends:
  "\<exists>us. snd (gemStep sp k s) = snd s @ us \<and> list_all isScoreUpdate us"
  by (simp add: gemStep_def Let_def)

lemma gemsLoop_appends:
  "\<exists>us. snd (gemsLoop sp s) = snd s @ us \<and> list_all isScoreUpdate us"
  unfolding gemsLoop_def
proof (rule forEach_inv [where P = "\<lambda>t. \<exists>us. snd t = snd s @ us \<and> list_all isScoreUpdate us"])
  fix k and t :: "game \<times> update list"
  assume "\<exists>us. snd t = snd s @ us \<and> list_all isScoreUpdate us"
  then obtain us where us: "snd t = snd s @ us" "list_all isScoreUpdate us" by blast
  obtain vs where vs: "snd (gemStep sp k t) = snd t @ vs" "list_all isScoreUpdate vs"
    using gemStep_appends by blast
  from us vs have "snd (gemStep sp k t) = snd s @ (us @ vs) \<and> list_all isScoreUpdate (us @ vs)"
    by simp
  then show "\<exists>us. snd (gemStep sp k t) = snd s @ us \<and> list_all isScoreUpdate us" ..
next
  show "\<exists>us. snd s = snd s @ us \<and> list_all isScoreUpdate us"
    by (rule exI [of _ "[]"]) simp
qed

lemma scoreUpdates_phase:
  assumes "list_all isScoreUpdate us"
  shows "isPlaying (foldl (\<lambda>st u. applyUpdate u st) st us) = isPlaying st
       \<and> isGameOver (foldl (\<lambda>st u. applyUpdate u st) st us) = isGameOver st
       \<and> highScore (foldl (\<lambda>st u. applyUpdate u st) st us) = highScore st"
  using assms
proof (induction us arbitrary: st)
  case Nil
  then show ?case by simp
next
  case (Cons u us)
  then obtain s where "u = ScoreUpdate s" by (cases u) simp_all
  with Cons show ?case by simp
qed

lemma gameOver_twice:
  "applyUpdate (GameOverUpdate s) (applyUpdate (GameOverUpdate s) st)
     = applyUpdate (GameOverUpdate s) st"
  by simp

lemma gameOvers_fold:
  "foldl (\<lambda>st u. applyUpdate u st) st (replicate n (GameOverUpdate s))
     = (if n = 0 then st else applyUpdate (GameOverUpdate s) st)"
proof (induction n arbitrary: st)
  case 0
  then show ?case by simp
next
  case (Suc n)
  have "foldl (\<lambda>st u. applyUpdate u st) st (replicate (Suc n) (GameOverUpdate s))
      = foldl (\<lambda>st u. applyUpdate u st) (applyUpdate (GameOverUpdate s) st)
          (replicate n (GameOverUpdate s))"
    by simp
  also have "\<dots> = (if n = 0 then applyUpdate (GameOverUpdate s) st
      else applyUpdate (GameOverUpdate s) (applyUpdate (GameOverUpdate s) st))"
    by (rule Suc.IH)
  also have "\<dots> = applyUpdate (GameOverUpdate s) st"
    by (simp only: gameOver_twice if_cancel)
  finally show ?case by simp
qed

text \<open>
  The obstacles hit in a frame: those that, moved by the speed, meet the three conditions
  against the player as the jump physics of this frame has placed it.
\<close>

definition hits :: "game \<Rightarrow> obstacle list" where
  "hits g = filter (\<lambda>ob. collides (jumpPhysics g) (moveObstacle (speed g) ob)) (obstacles g)"

definition nonePassing :: "game \<Rightarrow> bool" where
  "nonePassing g \<longleftrightarrow>
     list_all (\<lambda>ob. collides (jumpPhysics g) (moveObstacle (speed g) ob) \<or> oz ob + speed g \<le> 10)
       (obstacles g)"

lemma collides_rotateGems: "collides (rotateGems e g) ob = collides g ob"
  by (simp add: collides_def rotateGems_def)

lemma frame_dispatches:
  assumes "nonePassing g"
  shows "\<exists>us. snd (frame e g) = replicate (length (hits g)) (GameOverUpdate (score g)) @ us
      \<and> list_all isScoreUpdate us"
proof -
  let ?g2 = "rotateGems e (jumpPhysics g)"
  have sp: "speed ?g2 = speed g"
    by (simp add: rotateGems_speed jumpPhysics_speed)
  have ob: "obstacles ?g2 = obstacles g"
    by (simp add: rotateGems_def jumpPhysics_def Let_def)
  have sc: "score ?g2 = score g"
    by (simp add: rotateGems_def jumpPhysics_score)
  from assms
  have "list_all (\<lambda>ob. collides ?g2 (moveObstacle (speed g) ob) \<or> oz ob + speed g \<le> 10)
      (obstacles ?g2)"
    by (simp add: nonePassing_def collides_rotateGems ob)
  from obstaclesLoop_all [OF this, of "[]"]
  have a: "obstaclesLoop (speed g) (?g2, [])
      = (?g2\<lparr>obstacles := map (moveObstacle (speed g)) (obstacles g)\<rparr>,
         replicate (length (hits g)) (GameOverUpdate (score g)))"
    by (simp add: hits_def collides_rotateGems ob sc map_replicate_const)
  obtain us where "snd (gemsLoop (speed g) (obstaclesLoop (speed g) (?g2, [])))
      = snd (obstaclesLoop (speed g) (?g2, [])) @ us" and "list_all isScoreUpdate us"
    using gemsLoop_appends by blast
  then have "snd (frame e g) = replicate (length (hits g)) (GameOverUpdate (score g)) @ us
      \<and> list_all isScoreUpdate us"
    by (simp add: frame_def Let_def sp a)
  then show ?thesis ..
qed

subsection \<open>The two array passes as functions on lists\<close>

text \<open>
  What \<^verbatim>\<open>obstacles.forEach\<close> makes of the array, read off the array itself: an obstacle
  that is hit stays, moved; one that passes depth 10 is removed, and the obstacle behind
  it, which slides into its index, is left as it is; any other obstacle is moved.
\<close>

fun sweepObstacles :: "game \<Rightarrow> real \<Rightarrow> obstacle list \<Rightarrow> obstacle list" where
  "sweepObstacles g sp [] = []"
| "sweepObstacles g sp [ob] =
     (if collides g (moveObstacle sp ob) then [moveObstacle sp ob]
      else if oz (moveObstacle sp ob) > 10 then []
      else [moveObstacle sp ob])"
| "sweepObstacles g sp (ob # nxt # rest) =
     (if collides g (moveObstacle sp ob) then moveObstacle sp ob # sweepObstacles g sp (nxt # rest)
      else if oz (moveObstacle sp ob) > 10 then nxt # sweepObstacles g sp rest
      else moveObstacle sp ob # sweepObstacles g sp (nxt # rest))"

text \<open>The number of times the loop dispatches the game-over updater.\<close>

fun sweepHits :: "game \<Rightarrow> real \<Rightarrow> obstacle list \<Rightarrow> nat" where
  "sweepHits g sp [] = 0"
| "sweepHits g sp [ob] = (if collides g (moveObstacle sp ob) then 1 else 0)"
| "sweepHits g sp (ob # nxt # rest) =
     (if collides g (moveObstacle sp ob) then Suc (sweepHits g sp (nxt # rest))
      else if oz (moveObstacle sp ob) > 10 then sweepHits g sp rest
      else sweepHits g sp (nxt # rest))"

lemma forEachFrom_past:
  "len s \<le> k \<Longrightarrow> forEachFrom len cb n k s = s"
  by (induction n arbitrary: k) simp_all

lemma at_boundary:
  "(done @ x # rest) ! length done = x"
  "(done @ x # rest)[length done := v] = done @ v # rest"
  "spliceAt (length done) (done @ x # rest) = done @ rest"
  by (simp_all add: spliceAt_def)

lemma obstacleStep_at_boundary:
  "obstacleStep sp (length done) (g\<lparr>obstacles := done @ ob # rest\<rparr>, us) =
     (if collides g (moveObstacle sp ob)
      then (g\<lparr>obstacles := done @ moveObstacle sp ob # rest\<rparr>, us @ [GameOverUpdate (score g)])
      else if oz (moveObstacle sp ob) > 10 then (g\<lparr>obstacles := done @ rest\<rparr>, us)
      else (g\<lparr>obstacles := done @ moveObstacle sp ob # rest\<rparr>, us))"
  by (simp add: obstacleStep_def Let_def at_boundary moveObstacle_def)

lemma obstaclesFrom_sweep:
  "length todo \<le> n \<Longrightarrow>
   forEachFrom (\<lambda>s. length (obstacles (fst s))) (obstacleStep sp) n (length done)
     (g\<lparr>obstacles := done @ todo\<rparr>, us)
   = (g\<lparr>obstacles := done @ sweepObstacles g sp todo\<rparr>,
      us @ replicate (sweepHits g sp todo) (GameOverUpdate (score g)))"
proof (induction n arbitrary: todo "done" us)
  case 0
  then show ?case by simp
next
  case (Suc n)
  show ?case
  proof (cases todo)
    case Nil
    then show ?thesis by (simp add: forEachFrom_past)
  next
    case (Cons ob rest)
    with Suc.prems have len: "length rest \<le> n" by simp
    let ?ob = "moveObstacle sp ob"
    have keep: "forEachFrom (\<lambda>s. length (obstacles (fst s))) (obstacleStep sp) n (Suc (length done))
          (g\<lparr>obstacles := done @ ?ob # rest\<rparr>, vs)
        = (g\<lparr>obstacles := done @ ?ob # sweepObstacles g sp rest\<rparr>,
           vs @ replicate (sweepHits g sp rest) (GameOverUpdate (score g)))" for vs
      using Suc.IH [OF len, of "done @ [?ob]" vs] by simp
    have drop: "forEachFrom (\<lambda>s. length (obstacles (fst s))) (obstacleStep sp) n (Suc (length done))
          (g\<lparr>obstacles := done @ rest\<rparr>, us)
        = (g\<lparr>obstacles := done @ (case rest of [] \<Rightarrow> [] | nxt # r \<Rightarrow> nxt # sweepObstacles g sp r)\<rparr>,
           us @ replicate (case rest of [] \<Rightarrow> 0 | nxt # r \<Rightarrow> sweepHits g sp r)
                  (GameOverUpdate (score g)))"
    proof (cases rest)
      case Nil
      then show ?thesis by (simp add: forEachFrom_past)
    next
      case (Cons nxt r)
      with len have "length r \<le> n" by simp
      from Suc.IH [OF this, of "done @ [nxt]" us] Cons show ?thesis by simp
    qed
    have first: "forEachFrom (\<lambda>s. length (obstacles (fst s))) (obstacleStep sp) (Suc n) (length done)
          (g\<lparr>obstacles := done @ todo\<rparr>, us)
        = forEachFrom (\<lambda>s. length (obstacles (fst s))) (obstacleStep sp) n (Suc (length done))
            (obstacleStep sp (length done) (g\<lparr>obstacles := done @ ob # rest\<rparr>, us))"
      using Cons by simp
    show ?thesis
    proof (cases "collides g ?ob")
      case True
      with first keep [of "us @ [GameOverUpdate (score g)]"] Cons show ?thesis
        by (cases rest) (simp_all add: obstacleStep_at_boundary replicate_app_Cons_same)
    next
      case False
      show ?thesis
      proof (cases "oz ?ob > 10")
        case True
        with False first drop Cons show ?thesis
          by (cases rest) (simp_all add: obstacleStep_at_boundary)
      next
        case far: False
        with False first keep [of us] Cons show ?thesis
          by (cases rest) (simp_all add: obstacleStep_at_boundary)
      qed
    qed
  qed
qed

lemma obstaclesLoop_sweep:
  "obstaclesLoop sp (g, us)
   = (g\<lparr>obstacles := sweepObstacles g sp (obstacles g)\<rparr>,
      us @ replicate (sweepHits g sp (obstacles g)) (GameOverUpdate (score g)))"
  using obstaclesFrom_sweep [of "obstacles g" "length (obstacles g)" sp "[]" g us]
  by (simp add: obstaclesLoop_def forEach_def)

text \<open>
  The same for \<^verbatim>\<open>gems.forEach\<close>, for a player at depth 5, where no gem is both within
  reach and past depth 10: a gem that is collected or passes depth 10 is removed, and the
  gem behind it is left as it is; any other gem is moved.
\<close>

fun sweepGems :: "game \<Rightarrow> real \<Rightarrow> gem list \<Rightarrow> gem list" where
  "sweepGems g sp [] = []"
| "sweepGems g sp [gm] =
     (if collects g (moveGem sp gm) \<or> gz (moveGem sp gm) > 10 then [] else [moveGem sp gm])"
| "sweepGems g sp (gm # nxt # rest) =
     (if collects g (moveGem sp gm) \<or> gz (moveGem sp gm) > 10 then nxt # sweepGems g sp rest
      else moveGem sp gm # sweepGems g sp (nxt # rest))"

text \<open>The number of gems the loop collects, and the score updates it dispatches.\<close>

fun sweepCount :: "game \<Rightarrow> real \<Rightarrow> gem list \<Rightarrow> nat" where
  "sweepCount g sp [] = 0"
| "sweepCount g sp [gm] = (if collects g (moveGem sp gm) then 1 else 0)"
| "sweepCount g sp (gm # nxt # rest) =
     (if collects g (moveGem sp gm) then Suc (sweepCount g sp rest)
      else if gz (moveGem sp gm) > 10 then sweepCount g sp rest
      else sweepCount g sp (nxt # rest))"

fun scoreUpdatesFrom :: "int \<Rightarrow> nat \<Rightarrow> update list" where
  "scoreUpdatesFrom sc 0 = []"
| "scoreUpdatesFrom sc (Suc n) = ScoreUpdate (sc + 10) # scoreUpdatesFrom (sc + 10) n"

lemma collects_score [simp]: "collects (g\<lparr>score := sc\<rparr>) gm = collects g gm"
  by (simp add: collects_def)

lemma collects_within_depth: "pz g = 5 \<Longrightarrow> collects g gm \<Longrightarrow> \<not> gz gm > 10"
  by (auto simp: collects_def abs_less_iff)

lemma gemStep_at_boundary:
  assumes "pz g = 5"
  shows "gemStep sp (length done) (g\<lparr>gems := done @ gm # rest, score := sc\<rparr>, us) =
     (if collects g (moveGem sp gm)
      then (g\<lparr>gems := done @ rest, score := sc + 10\<rparr>, us @ [ScoreUpdate (sc + 10)])
      else if gz (moveGem sp gm) > 10 then (g\<lparr>gems := done @ rest, score := sc\<rparr>, us)
      else (g\<lparr>gems := done @ moveGem sp gm # rest, score := sc\<rparr>, us))"
proof (cases "collects g (moveGem sp gm)")
  case True
  with assms have "\<not> gz (moveGem sp gm) > 10"
    by (rule collects_within_depth)
  with True show ?thesis
    by (simp add: gemStep_def Let_def at_boundary moveGem_def)
next
  case False
  then show ?thesis
    by (simp add: gemStep_def Let_def at_boundary moveGem_def)
qed

lemma gemsFrom_sweep:
  assumes "pz g = 5"
  shows "length todo \<le> n \<Longrightarrow>
   forEachFrom (\<lambda>s. length (gems (fst s))) (gemStep sp) n (length done)
     (g\<lparr>gems := done @ todo, score := sc\<rparr>, us)
   = (g\<lparr>gems := done @ sweepGems g sp todo,
         score := sc + 10 * int (sweepCount g sp todo)\<rparr>,
      us @ scoreUpdatesFrom sc (sweepCount g sp todo))"
proof (induction n arbitrary: todo "done" sc us)
  case 0
  then show ?case by simp
next
  case (Suc n)
  show ?case
  proof (cases todo)
    case Nil
    then show ?thesis by (simp add: forEachFrom_past)
  next
    case (Cons gm rest)
    with Suc.prems have len: "length rest \<le> n" by simp
    let ?gm = "moveGem sp gm"
    have keep: "forEachFrom (\<lambda>s. length (gems (fst s))) (gemStep sp) n (Suc (length done))
          (g\<lparr>gems := done @ ?gm # rest, score := sc\<rparr>, us)
        = (g\<lparr>gems := done @ ?gm # sweepGems g sp rest,
              score := sc + 10 * int (sweepCount g sp rest)\<rparr>,
           us @ scoreUpdatesFrom sc (sweepCount g sp rest))"
      using Suc.IH [OF len, of "done @ [?gm]" sc us] by simp
    have drop: "forEachFrom (\<lambda>s. length (gems (fst s))) (gemStep sp) n (Suc (length done))
          (g\<lparr>gems := done @ rest, score := c\<rparr>, vs)
        = (g\<lparr>gems := done @ (case rest of [] \<Rightarrow> [] | nxt # r \<Rightarrow> nxt # sweepGems g sp r),
              score := c + 10 * int (case rest of [] \<Rightarrow> 0 | nxt # r \<Rightarrow> sweepCount g sp r)\<rparr>,
           vs @ scoreUpdatesFrom c (case rest of [] \<Rightarrow> 0 | nxt # r \<Rightarrow> sweepCount g sp r))"
      for c vs
    proof (cases rest)
      case Nil
      then show ?thesis by (simp add: forEachFrom_past)
    next
      case (Cons nxt r)
      with len have "length r \<le> n" by simp
      from Suc.IH [OF this, of "done @ [nxt]" c vs] Cons show ?thesis by simp
    qed
    have first: "forEachFrom (\<lambda>s. length (gems (fst s))) (gemStep sp) (Suc n) (length done)
          (g\<lparr>gems := done @ todo, score := sc\<rparr>, us)
        = forEachFrom (\<lambda>s. length (gems (fst s))) (gemStep sp) n (Suc (length done))
            (gemStep sp (length done) (g\<lparr>gems := done @ gm # rest, score := sc\<rparr>, us))"
      using Cons by simp
    show ?thesis
    proof (cases "collects g ?gm")
      case True
      with first drop [of "sc + 10" "us @ [ScoreUpdate (sc + 10)]"] Cons show ?thesis
        by (cases rest) (simp_all add: gemStep_at_boundary [OF assms])
    next
      case False
      show ?thesis
      proof (cases "gz ?gm > 10")
        case True
        with False first drop [of sc us] Cons show ?thesis
          by (cases rest) (simp_all add: gemStep_at_boundary [OF assms])
      next
        case far: False
        with False first keep Cons show ?thesis
          by (cases rest) (simp_all add: gemStep_at_boundary [OF assms])
      qed
    qed
  qed
qed

lemma gemsLoop_sweep:
  assumes "pz g = 5"
  shows "gemsLoop sp (g, us)
   = (g\<lparr>gems := sweepGems g sp (gems g),
         score := score g + 10 * int (sweepCount g sp (gems g))\<rparr>,
      us @ scoreUpdatesFrom (score g) (sweepCount g sp (gems g)))"
proof -
  have "g = g\<lparr>gems := [] @ gems g, score := score g\<rparr>" by simp
  then have "gemsLoop sp (g, us)
      = forEachFrom (\<lambda>s. length (gems (fst s))) (gemStep sp) (length (gems g)) (length ([] :: gem list))
          (g\<lparr>gems := [] @ gems g, score := score g\<rparr>, us)"
    by (simp add: gemsLoop_def forEach_def)
  also have "\<dots> = (g\<lparr>gems := [] @ sweepGems g sp (gems g),
         score := score g + 10 * int (sweepCount g sp (gems g))\<rparr>,
      us @ scoreUpdatesFrom (score g) (sweepCount g sp (gems g)))"
    by (rule gemsFrom_sweep [OF assms]) simp
  finally show ?thesis by simp
qed

section \<open>Invariants of every run\<close>

lemma dispatchAll_gameRef: "gameRef (dispatchAll us w) = gameRef w"
  unfolding dispatchAll_def by (induction us arbitrary: w) (simp_all add: setGameState_def)

lemma dispatchAll_container: "container (dispatchAll us w) = container w"
  unfolding dispatchAll_def by (induction us arbitrary: w) (simp_all add: setGameState_def)

lemma dispatchAll_updates: "updates (dispatchAll us w) = updates w @ us"
  unfolding dispatchAll_def by (induction us arbitrary: w) (simp_all add: setGameState_def)

lemma dispatchAll_gameState:
  "gameState (dispatchAll us w) = foldl (\<lambda>st u. applyUpdate u st) (gameState w) us"
  unfolding dispatchAll_def by (induction us arbitrary: w) (simp_all add: setGameState_def)

definition gameOk :: "game \<Rightarrow> bool" where
  "gameOk g \<longleftrightarrow> 0.6 \<le> py g \<and> pz g = 5 \<and> 0 \<le> currentLane g \<and> currentLane g \<le> 2
     \<and> px g = lanes_at (currentLane g) \<and> tens (score g) \<and> withinDepth g"

definition worldOk :: "world \<Rightarrow> bool" where
  "worldOk w \<longleftrightarrow> (case gameRef w of None \<Rightarrow> True | Some g \<Rightarrow> gameOk g) \<and> stateOk (gameState w)"

lemma frame_ok: "gameOk g \<Longrightarrow> gameOk (fst (frame e g))"
  unfolding gameOk_def
  by (simp only: frame_px frame_pz frame_currentLane frame_ground frame_tens frame_depth
      simp_thms)

lemma applyUpdate_ok: "stateOk st \<Longrightarrow> updateOk u \<Longrightarrow> stateOk (applyUpdate u st)"
  by (cases u) (auto simp: stateOk_def tens_def max_def)

lemma foldl_applyUpdate_ok:
  "stateOk st \<Longrightarrow> list_all updateOk us \<Longrightarrow> stateOk (foldl (\<lambda>st u. applyUpdate u st) st us)"
  by (induction us arbitrary: st) (simp_all add: applyUpdate_ok)

lemma gameLoop_ok:
  assumes "worldOk w"
  shows "worldOk (gameLoop e w)"
proof (cases "gameRef w")
  case None
  with assms show ?thesis by (simp add: gameLoop_def)
next
  case (Some g)
  with assms have g: "gameOk g" and st: "stateOk (gameState w)"
    by (simp_all add: worldOk_def)
  show ?thesis
  proof (cases "isPlaying (gameState w)")
    case False
    with Some assms show ?thesis by (simp add: gameLoop_def)
  next
    case True
    from g have "list_all updateOk (snd (frame e g))"
      by (simp add: frame_tens gameOk_def)
    with st have "stateOk (foldl (\<lambda>st u. applyUpdate u st) (gameState w) (snd (frame e g)))"
      by (rule foldl_applyUpdate_ok)
    with Some True frame_ok [OF g, of e] show ?thesis
      by (simp add: gameLoop_def worldOk_def dispatchAll_gameRef dispatchAll_gameState)
  qed
qed

lemma jump_ok: "worldOk w \<Longrightarrow> worldOk (jump w)"
  unfolding worldOk_def jump_def by (auto simp: gameOk_def withinDepth_def split: option.splits)

lemma lanes_at_simps [simp]:
  "lanes_at 0 = Some (- 2)" "lanes_at 1 = Some 0" "lanes_at 2 = Some 2"
  by (simp_all add: lanes_at_def lanes_def)

lemma moveLeft_ok: "worldOk w \<Longrightarrow> worldOk (moveLeft w)"
  unfolding worldOk_def moveLeft_def by (auto simp: gameOk_def withinDepth_def split: option.splits)

lemma moveRight_ok: "worldOk w \<Longrightarrow> worldOk (moveRight w)"
  unfolding worldOk_def moveRight_def by (auto simp: gameOk_def withinDepth_def split: option.splits)

lemma tens_0 [simp]: "tens 0"
  by (simp add: tens_def)

lemma resetGame_ok: "gameOk (resetGame g)"
  by (simp add: gameOk_def withinDepth_def resetGame_def)

lemma initialGame_ok: "gameOk initialGame"
  by (simp add: gameOk_def withinDepth_def initialGame_def)

lemma initGame_ok: "worldOk w \<Longrightarrow> worldOk (initGame w)"
  unfolding worldOk_def initGame_def by (simp add: initialGame_ok)

lemma startGame_ok: "worldOk w \<Longrightarrow> worldOk (startGame w)"
  unfolding worldOk_def startGame_def Let_def setGameState_def initGame_def
  by (auto simp: resetGame_ok stateOk_def split: option.splits)

lemma handleKeyDown_ok: "worldOk w \<Longrightarrow> worldOk (handleKeyDown code w)"
  unfolding handleKeyDown_def Let_def
  by (simp add: startGame_ok jump_ok moveLeft_ok moveRight_ok)

lemma handleClick_ok: "worldOk w \<Longrightarrow> worldOk (handleClick w)"
  unfolding handleClick_def Let_def
  by (simp add: startGame_ok jump_ok)

lemma step_ok: "worldOk w \<Longrightarrow> worldOk (step ev w)"
  by (cases ev)
     (simp_all add: gameLoop_ok handleKeyDown_ok handleClick_ok startGame_ok jump_ok
        moveLeft_ok moveRight_ok)

lemma run_ok: "worldOk w \<Longrightarrow> worldOk (run evs w)"
  unfolding run_def by (induction evs arbitrary: w) (simp_all add: step_ok)

lemma mounted_ok: "worldOk (mounted c)"
  unfolding mounted_def
  by (rule initGame_ok) (simp add: worldOk_def newWorld_def stateOk_def)

lemma reachable_ok:
  assumes "gameRef (run evs (mounted c)) = Some g"
  shows "gameOk g"
  using run_ok [OF mounted_ok, of evs c] assms by (simp add: worldOk_def)

section \<open>Concrete runs\<close>

subsection \<open>Environments\<close>

text \<open>
  \<open>quietEnv\<close> is what a frame draws when both spawn draws fail (0.5 is not below 0.02
  or 0.015).  In the other three the draw named succeeds (0.01) and \<open>r\<close> picks the
  lane: \<^verbatim>\<open>Math.floor(r * 3)\<close> is 0 for 0.1 and 1 for 0.5.  The clock stands at 0; it
  only drives the bob of the gems, which stays between 1.3 and 1.7 whatever the clock
  (\<open>bobY_bounds\<close> below).
\<close>

definition quietEnv :: env where
  "quietEnv = \<lparr>dateNow = (\<lambda>_. 0), rndObstacle = 0.5, rndWidth = 0.5, rndHeight = 0.5,
     rndObstacleLane = 0.5, rndGem = 0.5, rndGemLane = 0.5\<rparr>"

definition obstacleEnv :: "real \<Rightarrow> env" where
  "obstacleEnv r = quietEnv\<lparr>rndObstacle := 0.01, rndObstacleLane := r\<rparr>"

definition gemEnv :: "real \<Rightarrow> env" where
  "gemEnv r = quietEnv\<lparr>rndGem := 0.01, rndGemLane := r\<rparr>"

definition bothEnv :: "real \<Rightarrow> env" where
  "bothEnv r = quietEnv\<lparr>rndObstacle := 0.01, rndObstacleLane := r, rndGem := 0.01,
     rndGemLane := r\<rparr>"

subsection \<open>Game objects\<close>

text \<open>A world in the Playing phase around a given game object.\<close>

definition playing :: "game \<Rightarrow> world" where
  "playing g = \<lparr>container = True, gameRef = Some g,
     gameState = \<lparr>stateScore = score g, isPlaying = True, isGameOver = False, highScore = 0\<rparr>,
     updates = []\<rparr>"

text \<open>Two gems within reach of the player, next to each other in the array.\<close>

definition twoGems :: game where
  "twoGems = \<lparr>px = Some 0, py = 0.6, pz = 5, obstacles = [],
     gems = [\<lparr>gx = Some 0, gy = 1.5, gz = 4.9, grot = 0\<rparr>,
             \<lparr>gx = Some 0, gy = 1.5, gz = 4.7, grot = 0\<rparr>],
     isJumping = False, jumpVelocity = 0, speed = 0.15, score = 0, currentLane = 1\<rparr>"

text \<open>Two obstacles close to the player, the second one in the player's lane.\<close>

definition centreHit :: game where
  "centreHit = \<lparr>px = Some 0, py = 0.6, pz = 5,
     obstacles = [\<lparr>ox = Some 2, oy = 0.625, oz = 4.5, owidth = 1.8, oheight = 1.25\<rparr>,
                  \<lparr>ox = Some 0, oy = 0.625, oz = 4.3, owidth = 1.8, oheight = 1.25\<rparr>],
     gems = [], isJumping = False, jumpVelocity = 0, speed = 0.15, score = 30, currentLane = 1\<rparr>"

subsection \<open>Evaluation\<close>

text \<open>
  A run is evaluated by rewriting.  The frames in which nothing happens, several hundred
  between a spawn at depth - 40 and the player at depth 5, are rewritten by
  \<open>gameLoop_uneventful\<close>, one array pass each; the few frames in which something
  happens are rewritten by the definitions.
\<close>

fun frames :: "nat \<Rightarrow> env \<Rightarrow> world \<Rightarrow> world" where
  "frames 0 e w = w"
| "frames (Suc n) e w = frames n e (gameLoop e w)"

lemma frames_numeral:
  "frames (numeral k) e w = frames (pred_numeral k) e (gameLoop e w)"
  by (simp add: numeral_eq_Suc)

lemma run_frames: "run (replicate n (Frame e) @ evs) w = run evs (frames n e w)"
  by (induction n arbitrary: w) (simp_all add: run_def)

lemma run_Cons: "run (ev # evs) w = run evs (step ev w)"
  by (simp add: run_def)

lemma run_append: "run (evs @ evs') w = run evs' (run evs w)"
  by (simp add: run_def)

lemma run_Nil: "run [] w = w"
  by (simp add: run_def)

lemma run_replicate: "run (replicate n (Frame e)) w = frames n e w"
  using run_frames [of n e "[]" w] by (simp add: run_def)

lemma bobY_bounds: "1.3 \<le> bobY t z \<and> bobY t z \<le> 1.7"
proof -
  have "- 1 \<le> sin (t * 0.003 + z)" and "sin (t * 0.003 + z) \<le> 1"
    by simp_all
  then show ?thesis
    unfolding bobY_def by linarith
qed

lemma bobY_near_ground: "\<bar>bobY t z - 3 / 5\<bar> * 2 < 3"
  using bobY_bounds [of t z] by (simp add: abs_if)

lemmas eval_defs =
  run_def mounted_def newWorld_def initGame_def initialGame_def startGame_def resetGame_def
  setGameState_def dispatchAll_def jump_def moveLeft_def moveRight_def handleKeyDown_def
  handleClick_def gameLoop_def frame_def jumpPhysics_def rotateGems_def obstaclesLoop_def
  gemsLoop_def forEach_def obstacleStep_def gemStep_def collides_def collects_def near_def
  spliceAt_def spawn_def createObstacle_def createGem_def quietEnv_def Let_def

lemmas coast_defs = uneventful_def coast_def rotateGems_def jumpPhysics_def moveObstacle_def
  moveGem_def collides_def collects_def near_def spawn_def quietEnv_def Let_def

lemmas start_defs = run_Cons run_Nil mounted_def newWorld_def initGame_def initialGame_def
  startGame_def resetGame_def setGameState_def handleKeyDown_def moveLeft_def moveRight_def
  jump_def lanes_at_def lanes_def Let_def

lemmas coast_rules = frames_numeral gameLoop_uneventful coast_defs obstacleEnv_def gemEnv_def
  bothEnv_def lanes_at_def lanes_def createObstacle_def createGem_def

lemmas frame_defs = eval_defs obstacleEnv_def gemEnv_def bothEnv_def lanes_at_def lanes_def

section \<open>The claims\<close>

subsection \<open>C1: an obstacle within reach ends the run\<close>

definition oneBehindAnother :: "event list" where
  "oneBehindAnother = [StartButton, KeyDown ''ArrowRight'', Frame (obstacleEnv 0.1)]
     @ replicate 35 (Frame quietEnv) @ [Frame (obstacleEnv 0.5)] @ replicate 290 (Frame quietEnv)"

lemma oneBehindAnother_world:
  "run oneBehindAnother (mounted True) =
     \<lparr>container = True,
      gameRef = Some \<lparr>px = Some 2, py = 0.6, pz = 5,
        obstacles = [\<lparr>ox = Some (- 2), oy = 0.625, oz = 9.96602, owidth = 1.8, oheight = 1.25\<rparr>,
                     \<lparr>ox = Some 0, oy = 0.625, oz = 4.5527, owidth = 1.8, oheight = 1.25\<rparr>],
        gems = [], isJumping = False, jumpVelocity = 0, speed = 0.15654, score = 0,
        currentLane = 2\<rparr>,
      gameState = \<lparr>stateScore = 0, isPlaying = True, isGameOver = False, highScore = 0\<rparr>,
      updates = [StartUpdate]\<rparr>"
  unfolding oneBehindAnother_def run_append run_frames run_replicate
  by (simp add: start_defs) (simp add: coast_rules)

definition lateLaneChange :: world where
  "lateLaneChange = run (oneBehindAnother @ [KeyDown ''ArrowLeft'']) (mounted True)"

text \<open>
  C1 says that in a Playing frame every active obstacle that meets the three strict
  conditions ends the run.  A run from the mount on which a frame does not: start, the
  player moves to the right lane, an obstacle is spawned in the left lane and, 36 frames
  later, one in the centre lane; 290 frames later the player moves to the centre lane.
  Now the second obstacle of the array is in the player's lane at depth 4.5527 and meets
  the three conditions, with its depth as it is and with its depth moved by the speed.
  The next frame removes the first obstacle, which passes depth 10, and does not visit
  the second: the run goes on, nothing is dispatched, and the obstacle keeps its depth.
  The collision is found one frame later.
\<close>

theorem collision_missed_behind_removed_obstacle:
  "map_option (\<lambda>g. map (collides g) (obstacles g)) (gameRef lateLaneChange) = Some [False, True]
   \<and> map_option (\<lambda>g. map (\<lambda>ob. collides g (moveObstacle (speed g) ob)) (obstacles g))
        (gameRef lateLaneChange) = Some [False, True]
   \<and> map_option (map oz \<circ> obstacles) (gameRef lateLaneChange) = Some [9.96602, 4.5527]
   \<and> gameState (gameLoop quietEnv lateLaneChange)
       = \<lparr>stateScore = 0, isPlaying = True, isGameOver = False, highScore = 0\<rparr>
   \<and> updates (gameLoop quietEnv lateLaneChange) = [StartUpdate]
   \<and> map_option (map oz \<circ> obstacles) (gameRef (gameLoop quietEnv lateLaneChange)) = Some [4.5527]
   \<and> isGameOver (gameState (gameLoop quietEnv (gameLoop quietEnv lateLaneChange)))"
  unfolding lateLaneChange_def run_append oneBehindAnother_world
  by (simp add: frame_defs moveObstacle_def)

subsection \<open>C2: removal past depth 10\<close>

definition pairsPassing :: "event list" where
  "pairsPassing = [StartButton, KeyDown ''ArrowRight'', Frame (bothEnv 0.1)]
     @ replicate 35 (Frame quietEnv) @ [Frame (bothEnv 0.5)] @ replicate 290 (Frame quietEnv)"

lemma pairsPassing_world:
  "run pairsPassing (mounted True) =
     \<lparr>container = True,
      gameRef = Some \<lparr>px = Some 2, py = 0.6, pz = 5,
        obstacles = [\<lparr>ox = Some (- 2), oy = 0.625, oz = 9.96602, owidth = 1.8, oheight = 1.25\<rparr>,
                     \<lparr>ox = Some 0, oy = 0.625, oz = 4.5527, owidth = 1.8, oheight = 1.25\<rparr>],
        gems = [\<lparr>gx = Some (- 2), gy = bobY 0 9.8095, gz = 9.96602, grot = 16.3\<rparr>,
                \<lparr>gx = Some 0, gy = bobY 0 4.39618, gz = 4.5527, grot = 14.5\<rparr>],
        isJumping = False, jumpVelocity = 0, speed = 0.15654, score = 0, currentLane = 2\<rparr>,
      gameState = \<lparr>stateScore = 0, isPlaying = True, isGameOver = False, highScore = 0\<rparr>,
      updates = [StartUpdate]\<rparr>"
  unfolding pairsPassing_def run_append run_frames run_replicate
  by (simp add: start_defs) (simp add: coast_rules)

definition firstPairLeaving :: world where
  "firstPairLeaving = run pairsPassing (mounted True)"

text \<open>
  C2 says that an entity is removed in the frame in which it passes depth 10, and that a
  removal makes the frame's iteration skip no other entity.  A run from the mount on which
  a removal does: start, the player moves to the right lane, an obstacle and a gem are
  spawned in the left lane and, 36 frames later, an obstacle and a gem in the centre
  lane; 290 frames pass.  In the next frame the first obstacle and the first gem pass
  depth 10 and are removed, and the obstacle and the gem behind them are not visited:
  their depth is 4.5527 before and after the frame.  One frame later they are visited
  and moved.
\<close>

theorem removal_skips_next_entry:
  "map_option (map oz \<circ> obstacles) (gameRef firstPairLeaving) = Some [9.96602, 4.5527]
   \<and> map_option (map gz \<circ> gems) (gameRef firstPairLeaving) = Some [9.96602, 4.5527]
   \<and> map_option speed (gameRef firstPairLeaving) = Some 0.15654
   \<and> map_option (map oz \<circ> obstacles) (gameRef (gameLoop quietEnv firstPairLeaving))
       = Some [4.5527]
   \<and> map_option (map gz \<circ> gems) (gameRef (gameLoop quietEnv firstPairLeaving)) = Some [4.5527]
   \<and> map_option (map oz \<circ> obstacles)
        (gameRef (gameLoop quietEnv (gameLoop quietEnv firstPairLeaving))) = Some [4.70926]
   \<and> map_option (map gz \<circ> gems)
        (gameRef (gameLoop quietEnv (gameLoop quietEnv firstPairLeaving))) = Some [4.70926]"
  unfolding firstPairLeaving_def pairsPassing_world
  by (simp add: frame_defs)

subsection \<open>C3: a gem within reach is collected\<close>

definition gemPair :: "event list" where
  "gemPair = [StartButton, Frame (gemEnv 0.1), Frame (gemEnv 0.1)] @ replicate 288 (Frame quietEnv)"

lemma gemPair_world:
  "run gemPair (mounted True) =
     \<lparr>container = True,
      gameRef = Some \<lparr>px = Some 0, py = 0.6, pz = 5, obstacles = [],
        gems = [\<lparr>gx = Some (- 2), gy = bobY 0 4.03232, gz = 4.1881, grot = 14.45\<rparr>,
                \<lparr>gx = Some (- 2), gy = bobY 0 3.8823, gz = 4.03808, grot = 14.4\<rparr>],
        isJumping = False, jumpVelocity = 0, speed = 0.1558, score = 0, currentLane = 1\<rparr>,
      gameState = \<lparr>stateScore = 0, isPlaying = True, isGameOver = False, highScore = 0\<rparr>,
      updates = [StartUpdate]\<rparr>"
  unfolding gemPair_def run_append run_frames run_replicate
  by (simp add: start_defs) (simp add: coast_rules)

definition besideTwoGems :: world where
  "besideTwoGems = run (gemPair @ [KeyDown ''ArrowLeft'']) (mounted True)"

text \<open>
  C3 says that a gem is collected exactly when it meets the three strict thresholds, and
  that all gems meeting them in one frame are collected.  A run from the mount on which
  one is not: start, two gems are spawned in the left lane in consecutive frames, 288
  frames pass, and the player moves to the left lane.  In the next frame both gems,
  bobbed and moved, meet the three conditions.  The frame collects the first one only:
  the score is 10, one score update is dispatched, and the second gem is still in the
  array at depth 4.03808.  It is collected one frame later.
\<close>

theorem second_gem_not_collected:
  "map_option (\<lambda>g. map (\<lambda>gm. collects g (moveGem (speed g) gm))
        (gems (rotateGems quietEnv g))) (gameRef besideTwoGems) = Some [True, True]
   \<and> map_option score (gameRef (gameLoop quietEnv besideTwoGems)) = Some 10
   \<and> updates (gameLoop quietEnv besideTwoGems) = [StartUpdate, ScoreUpdate 10]
   \<and> map_option (map gz \<circ> gems) (gameRef (gameLoop quietEnv besideTwoGems)) = Some [4.03808]
   \<and> updates (gameLoop quietEnv (gameLoop quietEnv besideTwoGems))
       = [StartUpdate, ScoreUpdate 10, ScoreUpdate 20]"
  unfolding besideTwoGems_def run_append gemPair_world
  by (simp add: frame_defs moveGem_def bobY_near_ground)

subsection \<open>C4: the player never sinks below the ground\<close>

text \<open>
  C4.  Whatever frames and input events follow the mount, the player's vertical position
  is at least the ground level 0.6.
\<close>

theorem player_never_below_ground:
  "gameRef (run evs (mounted c)) = Some g \<Longrightarrow> 0.6 \<le> py g"
  using reachable_ok [of evs c g] by (simp add: gameOk_def)

theorem player_never_below_ground_witness:
  "\<exists>g. gameRef (run [StartButton, CallJump, Frame quietEnv, Frame quietEnv] (mounted True)) = Some g
     \<and> py g = 1.085 \<and> 0.6 \<le> py g"
proof -
  obtain g
    where g: "gameRef (run [StartButton, CallJump, Frame quietEnv, Frame quietEnv] (mounted True))
        = Some g"
      and y: "py g = 1.085"
    by (simp add: eval_defs)
  from player_never_below_ground [OF g] g y show ?thesis by blast
qed

subsection \<open>C5: what a start resets\<close>

definition approach :: "event list" where
  "approach = [StartButton, Frame (obstacleEnv 0.5)] @ replicate 287 (Frame quietEnv)"

lemma approach_world:
  "run approach (mounted True) =
     \<lparr>container = True,
      gameRef = Some \<lparr>px = Some 0, py = 0.6, pz = 5,
        obstacles = [\<lparr>ox = Some 0, oy = 0.625, oz = 3.87656, owidth = 1.8, oheight = 1.25\<rparr>],
        gems = [], isJumping = False, jumpVelocity = 0, speed = 0.15576, score = 0,
        currentLane = 1\<rparr>,
      gameState = \<lparr>stateScore = 0, isPlaying = True, isGameOver = False, highScore = 0\<rparr>,
      updates = [StartUpdate]\<rparr>"
  unfolding approach_def run_append run_frames run_replicate
  by (simp add: start_defs) (simp add: coast_rules)

definition crashInTheAir :: world where
  "crashInTheAir = run (approach @ [KeyDown ''Space'', Frame quietEnv]) (mounted True)"

text \<open>
  C5 says that every start resets score, speed, both arrays, lane and position, and
  leaves the player not jumping, with velocity 0.  A run from the mount on which the
  jump state survives the restart: start, an obstacle is spawned in the centre lane, 287
  frames pass, the player jumps (Space), and the next frame ends the run with the player
  in the air.  The restart (Space) puts the player back at height 0.6 but leaves the jump
  flag set and the velocity at 0.235; the first frame of the new run lifts the player to
  0.835 although no jump was requested.
\<close>

theorem restart_keeps_jump_state:
  "isGameOver (gameState crashInTheAir)
   \<and> map_option isJumping (gameRef crashInTheAir) = Some True
   \<and> isPlaying (gameState (handleKeyDown ''Space'' crashInTheAir))
   \<and> map_option isJumping (gameRef (handleKeyDown ''Space'' crashInTheAir)) = Some True
   \<and> map_option jumpVelocity (gameRef (handleKeyDown ''Space'' crashInTheAir)) = Some 0.235
   \<and> map_option py (gameRef (handleKeyDown ''Space'' crashInTheAir)) = Some 0.6
   \<and> map_option py (gameRef (gameLoop quietEnv (handleKeyDown ''Space'' crashInTheAir)))
       = Some 0.835"
  unfolding crashInTheAir_def run_append approach_world
  by (simp add: frame_defs)

subsection \<open>C6: one report of the end of a run\<close>

definition twoAhead :: "event list" where
  "twoAhead = [StartButton, KeyDown ''ArrowLeft'', Frame (obstacleEnv 0.5), Frame (obstacleEnv 0.5)]
     @ replicate 288 (Frame quietEnv)"

lemma twoAhead_world:
  "run twoAhead (mounted True) =
     \<lparr>container = True,
      gameRef = Some \<lparr>px = Some (- 2), py = 0.6, pz = 5,
        obstacles = [\<lparr>ox = Some 0, oy = 0.625, oz = 4.1881, owidth = 1.8, oheight = 1.25\<rparr>,
                     \<lparr>ox = Some 0, oy = 0.625, oz = 4.03808, owidth = 1.8, oheight = 1.25\<rparr>],
        gems = [], isJumping = False, jumpVelocity = 0, speed = 0.1558, score = 0,
        currentLane = 0\<rparr>,
      gameState = \<lparr>stateScore = 0, isPlaying = True, isGameOver = False, highScore = 0\<rparr>,
      updates = [StartUpdate]\<rparr>"
  unfolding twoAhead_def run_append run_frames run_replicate
  by (simp add: start_defs) (simp add: coast_rules)

definition intoTwoObstacles :: world where
  "intoTwoObstacles = run (twoAhead @ [KeyDown ''ArrowRight'']) (mounted True)"

text \<open>
  C6 says that in the frame of a collision only the first obstacle hit reports the end of
  the run.  A run from the mount on which two do: start, the player moves to the left lane, two obstacles are
  spawned in the centre lane in consecutive frames, 288 frames pass, and the player moves
  back to the centre lane while both obstacles are inside the collision window.  The next
  frame dispatches the game-over updater once for each of them.
\<close>

theorem game_over_dispatched_twice:
  "updates intoTwoObstacles = [StartUpdate]
   \<and> updates (gameLoop quietEnv intoTwoObstacles)
       = [StartUpdate, GameOverUpdate 0, GameOverUpdate 0]
   \<and> gameState (gameLoop quietEnv intoTwoObstacles)
       = \<lparr>stateScore = 0, isPlaying = False, isGameOver = True, highScore = 0\<rparr>"
  unfolding intoTwoObstacles_def run_append twoAhead_world
  by (simp add: frame_defs)

subsection \<open>C7: the speed ramp\<close>

text \<open>
  C7.  A frame of a Playing run adds exactly 0.00002 to the speed, so the speed does not
  decrease from one frame to the next; jumping and lane switching, called directly or
  through a key or a click during the run, leave it alone; after \<^verbatim>\<open>startGame\<close> it is
  the base value 0.15.
\<close>

theorem speed_ramp:
  "(gameRef w = Some g \<longrightarrow> isPlaying (gameState w) \<longrightarrow>
      (\<exists>g'. gameRef (gameLoop e w) = Some g' \<and> speed g' = speed g + 0.00002
         \<and> speed g \<le> speed g'))
   \<and> (gameRef w = Some g \<longrightarrow>
        map_option speed (gameRef (jump w)) = Some (speed g)
      \<and> map_option speed (gameRef (moveLeft w)) = Some (speed g)
      \<and> map_option speed (gameRef (moveRight w)) = Some (speed g))
   \<and> (gameRef w = Some g \<longrightarrow> isPlaying (gameState w) \<longrightarrow>
        map_option speed (gameRef (handleKeyDown code w)) = Some (speed g)
      \<and> map_option speed (gameRef (handleClick w)) = Some (speed g))
   \<and> (\<forall>g0. gameRef (startGame w) = Some g0 \<longrightarrow> speed g0 = 0.15)"
proof (intro conjI impI allI)
  assume "gameRef w = Some g" and "isPlaying (gameState w)"
  then have "gameRef (gameLoop e w) = Some (fst (frame e g))"
    by (simp add: gameLoop_def dispatchAll_gameRef)
  then show "\<exists>g'. gameRef (gameLoop e w) = Some g' \<and> speed g' = speed g + 0.00002
      \<and> speed g \<le> speed g'"
    by (simp add: frame_speed)
next
  assume "gameRef w = Some g"
  then show "map_option speed (gameRef (jump w)) = Some (speed g)"
    by (simp add: jump_def)
next
  assume "gameRef w = Some g"
  then show "map_option speed (gameRef (moveLeft w)) = Some (speed g)"
    by (simp add: moveLeft_def)
next
  assume "gameRef w = Some g"
  then show "map_option speed (gameRef (moveRight w)) = Some (speed g)"
    by (simp add: moveRight_def)
next
  assume "gameRef w = Some g" and "isPlaying (gameState w)"
  then show "map_option speed (gameRef (handleKeyDown code w)) = Some (speed g)"
    by (simp add: handleKeyDown_def Let_def jump_def moveLeft_def moveRight_def)
next
  assume "gameRef w = Some g" and "isPlaying (gameState w)"
  then show "map_option speed (gameRef (handleClick w)) = Some (speed g)"
    by (simp add: handleClick_def Let_def jump_def)
next
  fix g0
  assume "gameRef (startGame w) = Some g0"
  then show "speed g0 = 0.15"
    by (auto simp: startGame_def Let_def setGameState_def initGame_def resetGame_def
        split: option.splits if_splits)
qed

theorem speed_ramp_witness:
  "map_option speed (gameRef (run [StartButton] (mounted True))) = Some 0.15
   \<and> map_option speed (gameRef (run [StartButton, Frame quietEnv] (mounted True))) = Some 0.15002
   \<and> map_option speed (gameRef (run [StartButton, Frame quietEnv, Frame quietEnv] (mounted True)))
       = Some 0.15004"
proof -
  let ?w1 = "run [StartButton] (mounted True)"
  let ?w2 = "run [StartButton, Frame quietEnv] (mounted True)"
  obtain g1 where g1: "gameRef ?w1 = Some g1" and p1: "isPlaying (gameState ?w1)"
    by (simp add: eval_defs)
  have s1: "gameRef (startGame (mounted True)) = Some g1"
    using g1 by (simp add: run_def)
  have a: "speed g1 = 0.15"
    using speed_ramp [of "mounted True" g1] s1 by blast
  obtain g2 where g2: "gameRef (gameLoop quietEnv ?w1) = Some g2"
      and b: "speed g2 = speed g1 + 0.00002"
    using speed_ramp [of ?w1 g1 quietEnv] g1 p1 by blast
  have w2: "?w2 = gameLoop quietEnv ?w1"
    by (simp add: run_def)
  have p2: "isPlaying (gameState ?w2)"
    by (simp add: eval_defs)
  obtain g3 where g3: "gameRef (gameLoop quietEnv ?w2) = Some g3"
      and c: "speed g3 = speed g2 + 0.00002"
    using speed_ramp [of ?w2 g2 quietEnv] g2 p2 w2 by auto
  have w3: "run [StartButton, Frame quietEnv, Frame quietEnv] (mounted True) = gameLoop quietEnv ?w2"
    by (simp add: run_def)
  from g1 a have "map_option speed (gameRef ?w1) = Some 0.15" by simp
  moreover from g2 a b w2 have "map_option speed (gameRef ?w2) = Some 0.15002" by simp
  moreover from g3 a b c w3
  have "map_option speed (gameRef (run [StartButton, Frame quietEnv, Frame quietEnv] (mounted True)))
      = Some 0.15004" by simp
  ultimately show ?thesis by blast
qed

subsection \<open>C8: lanes\<close>

text \<open>
  C8.  In every state a run reaches from the mount, the lane index is 0, 1 or 2 and the
  player's x is the entry of \<^verbatim>\<open>lanes\<close> at that index; \<^verbatim>\<open>moveLeft\<close> in lane 0 and
  \<^verbatim>\<open>moveRight\<close> in lane 2 change nothing.
\<close>

theorem lane_model:
  "(\<forall>g. gameRef (run evs (mounted c)) = Some g \<longrightarrow>
       0 \<le> currentLane g \<and> currentLane g \<le> 2
     \<and> px g = lanes_at (currentLane g) \<and> px g \<noteq> None)
   \<and> (\<forall>g. gameRef w = Some g \<and> currentLane g = 0 \<longrightarrow> moveLeft w = w)
   \<and> (\<forall>g. gameRef w = Some g \<and> currentLane g = 2 \<longrightarrow> moveRight w = w)"
proof (intro conjI allI impI)
  fix g
  assume "gameRef (run evs (mounted c)) = Some g"
  then have ok: "gameOk g" by (rule reachable_ok)
  then show "0 \<le> currentLane g" "currentLane g \<le> 2" "px g = lanes_at (currentLane g)"
    by (simp_all add: gameOk_def)
  from ok have "lanes_at (currentLane g) \<noteq> None"
    by (simp add: gameOk_def lanes_at_def lanes_def)
  with ok show "px g \<noteq> None" by (simp add: gameOk_def)
next
  fix g
  assume "gameRef w = Some g \<and> currentLane g = 0"
  then show "moveLeft w = w" by (simp add: moveLeft_def)
next
  fix g
  assume "gameRef w = Some g \<and> currentLane g = 2"
  then show "moveRight w = w" by (simp add: moveRight_def)
qed

theorem lane_model_witness:
  "map_option currentLane (gameRef (run [StartButton, CallMoveLeft] (mounted True))) = Some 0
   \<and> map_option px (gameRef (run [StartButton, CallMoveLeft] (mounted True))) = Some (Some (- 2))
   \<and> moveLeft (run [StartButton, CallMoveLeft] (mounted True))
       = run [StartButton, CallMoveLeft] (mounted True)
   \<and> map_option currentLane
        (gameRef (run [StartButton, CallMoveRight, KeyDown ''ArrowRight''] (mounted True))) = Some 2
   \<and> moveRight (run [StartButton, CallMoveRight, KeyDown ''ArrowRight''] (mounted True))
       = run [StartButton, CallMoveRight, KeyDown ''ArrowRight''] (mounted True)"
proof -
  let ?l = "run [StartButton, CallMoveLeft] (mounted True)"
  let ?r = "run [StartButton, CallMoveRight, KeyDown ''ArrowRight''] (mounted True)"
  obtain g where g: "gameRef ?l = Some g" and gl: "currentLane g = 0"
    by (simp add: eval_defs)
  obtain h where h: "gameRef ?r = Some h" and hl: "currentLane h = 2"
    by (simp add: eval_defs)
  have "px g = lanes_at (currentLane g)"
    using lane_model [of "[StartButton, CallMoveLeft]" True ?l] g by blast
  with gl have x: "px g = Some (- 2)" by simp
  have ml: "moveLeft ?l = ?l"
    using lane_model [of "[]" True ?l] g gl by blast
  have mr: "moveRight ?r = ?r"
    using lane_model [of "[]" True ?r] h hl by blast
  from g gl x ml h hl mr show ?thesis by simp
qed

subsection \<open>C9: jump\<close>

text \<open>
  C9.  \<^verbatim>\<open>jump\<close> while the jump flag is set changes nothing at all; \<^verbatim>\<open>jump\<close> while it is
  clear sets the flag and the velocity 0.25 and changes nothing else, the vertical
  position included.  A second \<^verbatim>\<open>jump\<close> right after a first has no effect.
\<close>

theorem jump_contract:
  "(gameRef w = Some g \<and> isJumping g \<longrightarrow> jump w = w)
   \<and> (gameRef w = Some g \<and> \<not> isJumping g \<longrightarrow>
        jump w = w\<lparr>gameRef := Some (g\<lparr>isJumping := True, jumpVelocity := 0.25\<rparr>)\<rparr>)
   \<and> jump (jump w) = jump w"
proof (intro conjI impI)
  assume airborne: "gameRef w = Some g \<and> isJumping g"
  then show "jump w = w"
    by (simp add: jump_def)
next
  assume "gameRef w = Some g \<and> \<not> isJumping g"
  then show "jump w = w\<lparr>gameRef := Some (g\<lparr>isJumping := True, jumpVelocity := 0.25\<rparr>)\<rparr>"
    by (simp add: jump_def)
next
  show "jump (jump w) = jump w"
  proof (cases "gameRef w")
    case None
    then show ?thesis by (simp add: jump_def)
  next
    case (Some h)
    then show ?thesis by (cases "isJumping h") (simp_all add: jump_def)
  qed
qed

theorem jump_contract_witness:
  "map_option jumpVelocity (gameRef (jump (run [StartButton] (mounted True)))) = Some 0.25
   \<and> map_option isJumping (gameRef (jump (run [StartButton] (mounted True)))) = Some True
   \<and> map_option py (gameRef (jump (run [StartButton] (mounted True)))) = Some 0.6
   \<and> jump (run [StartButton, CallJump, Frame quietEnv] (mounted True))
       = run [StartButton, CallJump, Frame quietEnv] (mounted True)
   \<and> map_option jumpVelocity (gameRef (run [StartButton, CallJump, Frame quietEnv] (mounted True)))
       = Some 0.235"
proof -
  let ?w = "run [StartButton] (mounted True)"
  let ?a = "run [StartButton, CallJump, Frame quietEnv] (mounted True)"
  obtain g where g: "gameRef ?w = Some g" and gj: "\<not> isJumping g" and gy: "py g = 0.6"
    by (simp add: eval_defs)
  obtain h where h: "gameRef ?a = Some h" and hj: "isJumping h" and hv: "jumpVelocity h = 0.235"
    by (simp add: eval_defs)
  have "jump ?w = ?w\<lparr>gameRef := Some (g\<lparr>isJumping := True, jumpVelocity := 0.25\<rparr>)\<rparr>"
    using jump_contract [of ?w g] g gj by blast
  moreover have "jump ?a = ?a"
    using jump_contract [of ?a h] h hj by blast
  ultimately show ?thesis using gy h hv by simp
qed

subsection \<open>C10: the score is a multiple of 10\<close>

text \<open>
  C10.  In every state a run reaches from the mount, both scores (the one of the game
  object and the one of the React state) are non-negative multiples of 10.  A frame adds
  10 for each gem it collects; \<^verbatim>\<open>startGame\<close> sets both scores to 0; jumping and lane
  switching leave them alone.
\<close>

theorem score_multiple_of_ten:
  "(\<forall>g. gameRef (run evs (mounted c)) = Some g \<longrightarrow> 0 \<le> score g \<and> 10 dvd score g)
   \<and> 0 \<le> stateScore (gameState (run evs (mounted c)))
   \<and> 10 dvd stateScore (gameState (run evs (mounted c)))
   \<and> score (fst (frame e g0)) = score g0 + 10 * int (collected (snd (frame e g0)))
   \<and> (\<forall>g1. gameRef (startGame w) = Some g1 \<longrightarrow> score g1 = 0)
   \<and> stateScore (gameState (startGame w)) = 0
   \<and> map_option score (gameRef (jump w)) = map_option score (gameRef w)
   \<and> map_option score (gameRef (moveLeft w)) = map_option score (gameRef w)
   \<and> map_option score (gameRef (moveRight w)) = map_option score (gameRef w)
   \<and> gameState (jump w) = gameState w
   \<and> gameState (moveLeft w) = gameState w
   \<and> gameState (moveRight w) = gameState w"
proof -
  have ok: "worldOk (run evs (mounted c))"
    by (rule run_ok [OF mounted_ok])
  have a: "\<forall>g. gameRef (run evs (mounted c)) = Some g \<longrightarrow> 0 \<le> score g \<and> 10 dvd score g"
    using ok by (auto simp: worldOk_def gameOk_def tens_def)
  have b: "0 \<le> stateScore (gameState (run evs (mounted c)))
      \<and> 10 dvd stateScore (gameState (run evs (mounted c)))"
    using ok by (simp add: worldOk_def stateOk_def tens_def)
  have c: "\<forall>g1. gameRef (startGame w) = Some g1 \<longrightarrow> score g1 = 0"
    by (auto simp: startGame_def Let_def setGameState_def initGame_def resetGame_def
        initialGame_def split: option.splits if_splits)
  have d: "stateScore (gameState (startGame w)) = 0"
    by (simp add: startGame_def Let_def setGameState_def)
  have e: "map_option score (gameRef (jump w)) = map_option score (gameRef w)"
    "map_option score (gameRef (moveLeft w)) = map_option score (gameRef w)"
    "map_option score (gameRef (moveRight w)) = map_option score (gameRef w)"
    by (simp_all add: jump_def moveLeft_def moveRight_def split: option.splits)
  have f: "gameState (jump w) = gameState w" "gameState (moveLeft w) = gameState w"
    "gameState (moveRight w) = gameState w"
    by (simp_all add: jump_def moveLeft_def moveRight_def split: option.splits)
  from a b c d e f frame_collected [of e g0] show ?thesis
    by blast
qed

theorem score_multiple_of_ten_witness:
  "map_option score (gameRef (run [StartButton, Frame quietEnv] (mounted True))) = Some 0
   \<and> score (fst (frame quietEnv twoGems)) = 10
   \<and> collected (snd (frame quietEnv twoGems)) = 1
   \<and> map_option score (gameRef (startGame (playing (fst (frame quietEnv twoGems))))) = Some 0"
proof -
  let ?w = "run [StartButton, Frame quietEnv] (mounted True)"
  let ?v = "playing (fst (frame quietEnv twoGems))"
  note t = score_multiple_of_ten [of "[StartButton, Frame quietEnv]" True quietEnv twoGems ?v]
  obtain g where g: "gameRef ?w = Some g" and "score g < 10"
    by (simp add: eval_defs)
  with t have "score g = 0" by auto
  with g have a: "map_option score (gameRef ?w) = Some 0" by simp
  have n: "collected (snd (frame quietEnv twoGems)) = 1"
    by (simp add: eval_defs twoGems_def bobY_near_ground collected_def)
  with t have b: "score (fst (frame quietEnv twoGems)) = 10"
    by (simp add: twoGems_def)
  obtain g1 where g1: "gameRef (startGame ?v) = Some g1"
    by (simp add: startGame_def playing_def setGameState_def Let_def)
  with t have "score g1 = 0" by blast
  with g1 have c: "map_option score (gameRef (startGame ?v)) = Some 0" by simp
  from a b n c show ?thesis by blast
qed

section \<open>Further properties\<close>

text \<open>
  X1.  In a Playing frame in which no obstacle passes depth 10, every obstacle is visited:
  the frame ends the run exactly when some obstacle, moved by the speed, meets the three
  conditions, and then the high score is the maximum of the old high score and the score
  of the game object.
\<close>

theorem collision_check_when_none_passes:
  assumes "gameRef w = Some g" and "isPlaying (gameState w)" and "nonePassing g"
  shows "isPlaying (gameState (gameLoop e w)) = (hits g = [])
       \<and> isGameOver (gameState (gameLoop e w)) = (isGameOver (gameState w) \<or> hits g \<noteq> [])
       \<and> highScore (gameState (gameLoop e w))
           = (if hits g = [] then highScore (gameState w)
              else max (highScore (gameState w)) (score g))"
proof -
  obtain us where us: "snd (frame e g) = replicate (length (hits g)) (GameOverUpdate (score g)) @ us"
    and sc: "list_all isScoreUpdate us"
    using frame_dispatches [OF assms(3)] by blast
  let ?st = "foldl (\<lambda>st u. applyUpdate u st) (gameState w)
      (replicate (length (hits g)) (GameOverUpdate (score g)))"
  have "gameState (gameLoop e w) = foldl (\<lambda>st u. applyUpdate u st) ?st us"
    using assms(1,2) by (simp add: gameLoop_def dispatchAll_gameState us)
  with scoreUpdates_phase [OF sc, of ?st]
  have "isPlaying (gameState (gameLoop e w)) = isPlaying ?st"
    "isGameOver (gameState (gameLoop e w)) = isGameOver ?st"
    "highScore (gameState (gameLoop e w)) = highScore ?st"
    by simp_all
  then show ?thesis
    using assms(2) by (simp add: gameOvers_fold)
qed

theorem collision_check_when_none_passes_witness:
  "nonePassing centreHit \<and> length (hits centreHit) = 1
   \<and> \<not> isPlaying (gameState (gameLoop quietEnv (playing centreHit)))
   \<and> isGameOver (gameState (gameLoop quietEnv (playing centreHit)))
   \<and> highScore (gameState (gameLoop quietEnv (playing centreHit))) = 30"
proof -
  have a: "gameRef (playing centreHit) = Some centreHit"
    and b: "isPlaying (gameState (playing centreHit))"
    and h: "highScore (gameState (playing centreHit)) = 0"
    by (simp_all add: playing_def)
  have c: "nonePassing centreHit"
    by (simp add: nonePassing_def centreHit_def coast_defs)
  have d: "length (hits centreHit) = 1"
    by (simp add: hits_def centreHit_def coast_defs)
  then have e: "hits centreHit \<noteq> []" by auto
  have s: "score centreHit = 30"
    by (simp add: centreHit_def)
  from collision_check_when_none_passes [OF a b c, of quietEnv] c d e h s show ?thesis
    by simp
qed

text \<open>
  X2.  In every state a run reaches from the mount, no obstacle and no gem of the arrays
  is beyond depth 10: an entry moved past depth 10 is removed in the callback that moved
  it.
\<close>

theorem entities_within_depth:
  "gameRef (run evs (mounted c)) = Some g
     \<Longrightarrow> list_all (\<lambda>ob. oz ob \<le> 10) (obstacles g) \<and> list_all (\<lambda>gm. gz gm \<le> 10) (gems g)"
  using reachable_ok [of evs c g] by (simp add: gameOk_def withinDepth_def)

theorem entities_within_depth_witness:
  "map_option (map oz \<circ> obstacles)
      (gameRef (run [StartButton, Frame (bothEnv 0.5), Frame quietEnv] (mounted True)))
     = Some [- 39.84998]
   \<and> map_option (map gz \<circ> gems)
      (gameRef (run [StartButton, Frame (bothEnv 0.5), Frame quietEnv] (mounted True)))
     = Some [- 39.84998]
   \<and> (\<exists>g. gameRef (run [StartButton, Frame (bothEnv 0.5), Frame quietEnv] (mounted True)) = Some g
        \<and> list_all (\<lambda>ob. oz ob \<le> 10) (obstacles g) \<and> list_all (\<lambda>gm. gz gm \<le> 10) (gems g))"
proof -
  let ?w = "run [StartButton, Frame (bothEnv 0.5), Frame quietEnv] (mounted True)"
  obtain g where g: "gameRef ?w = Some g" and o: "map oz (obstacles g) = [- 39.84998]"
    and m: "map gz (gems g) = [- 39.84998]"
    by (simp add: frame_defs)
  from entities_within_depth [OF g] g o m show ?thesis
    by auto
qed

text \<open>
  X3.  \<^verbatim>\<open>startGame\<close> on an initialised game empties both arrays, puts the player at
  (0, 0.6, 5) in lane 1, sets the speed to 0.15 and both scores to 0, and enters the
  Playing phase; it leaves the high score, the jump flag and the jump velocity as they
  were.
\<close>

theorem start_resets:
  "gameRef w = Some g \<Longrightarrow>
     gameRef (startGame w)
       = Some (g\<lparr>obstacles := [], gems := [], px := Some 0, py := 0.6, pz := 5, speed := 0.15,
                  score := 0, currentLane := 1\<rparr>)
   \<and> gameState (startGame w)
       = (gameState w)\<lparr>stateScore := 0, isPlaying := True, isGameOver := False\<rparr>
   \<and> highScore (gameState (startGame w)) = highScore (gameState w)
   \<and> map_option isJumping (gameRef (startGame w)) = Some (isJumping g)
   \<and> map_option jumpVelocity (gameRef (startGame w)) = Some (jumpVelocity g)"
  by (simp add: startGame_def Let_def setGameState_def resetGame_def)

theorem start_resets_witness:
  "gameRef (startGame (gameLoop quietEnv (playing centreHit)))
     = Some \<lparr>px = Some 0, py = 0.6, pz = 5, obstacles = [], gems = [], isJumping = False,
         jumpVelocity = 0, speed = 0.15, score = 0, currentLane = 1\<rparr>
   \<and> gameState (startGame (gameLoop quietEnv (playing centreHit)))
     = \<lparr>stateScore = 0, isPlaying = True, isGameOver = False, highScore = 30\<rparr>"
proof -
  let ?w = "gameLoop quietEnv (playing centreHit)"
  obtain g where g: "gameRef ?w = Some g"
    and r: "g\<lparr>obstacles := [], gems := [], px := Some 0, py := 0.6, pz := 5, speed := 0.15,
          score := 0, currentLane := 1\<rparr>
        = \<lparr>px = Some 0, py = 0.6, pz = 5, obstacles = [], gems = [], isJumping = False,
           jumpVelocity = 0, speed = 0.15, score = 0, currentLane = 1\<rparr>"
    by (simp add: frame_defs playing_def centreHit_def)
  have st: "gameState ?w = \<lparr>stateScore = 30, isPlaying = False, isGameOver = True, highScore = 30\<rparr>"
    by (simp add: frame_defs playing_def centreHit_def)
  from start_resets [OF g] r st show ?thesis
    by simp
qed

text \<open>
  X4.  Once the phase is not Playing, a frame changes nothing, however many frames are
  run; in the GameOver phase a click on the window and every key but Space change
  nothing.  Dispatching the game-over updater a second time with the same score changes
  nothing.
\<close>

theorem game_over_is_final:
  "\<not> isPlaying (gameState w) \<Longrightarrow>
     gameLoop e w = w \<and> frames n e w = w
   \<and> (isGameOver (gameState w) \<longrightarrow> handleClick w = w)
   \<and> (code \<noteq> ''Space'' \<longrightarrow> handleKeyDown code w = w)
   \<and> applyUpdate (GameOverUpdate s) (applyUpdate (GameOverUpdate s) st)
       = applyUpdate (GameOverUpdate s) st"
proof -
  assume np: "\<not> isPlaying (gameState w)"
  then have a: "gameLoop e w = w"
    by (simp add: gameLoop_def split: option.splits)
  have b: "frames n e w = w"
    by (induction n) (simp_all add: a)
  from np have c: "isGameOver (gameState w) \<longrightarrow> handleClick w = w"
    by (simp add: handleClick_def Let_def)
  from np have d: "code \<noteq> ''Space'' \<longrightarrow> handleKeyDown code w = w"
    by (simp add: handleKeyDown_def Let_def)
  from a b c d show ?thesis by simp
qed

theorem game_over_is_final_witness:
  "isGameOver (gameState (gameLoop quietEnv (playing centreHit)))
   \<and> frames 3 quietEnv (gameLoop quietEnv (playing centreHit)) = gameLoop quietEnv (playing centreHit)
   \<and> handleClick (gameLoop quietEnv (playing centreHit)) = gameLoop quietEnv (playing centreHit)
   \<and> handleKeyDown ''ArrowLeft'' (gameLoop quietEnv (playing centreHit))
       = gameLoop quietEnv (playing centreHit)"
proof -
  let ?w = "gameLoop quietEnv (playing centreHit)"
  have st: "gameState ?w = \<lparr>stateScore = 30, isPlaying = False, isGameOver = True, highScore = 30\<rparr>"
    by (simp add: frame_defs playing_def centreHit_def)
  then have np: "\<not> isPlaying (gameState ?w)" and go: "isGameOver (gameState ?w)"
    by simp_all
  from game_over_is_final [OF np, of quietEnv 3 "''ArrowLeft''"] go show ?thesis
    by simp
qed

text \<open>
  X5.  The loop over the obstacles is the list function \<open>sweepObstacles\<close>: each obstacle
  is moved and tested in array order, except that the obstacle right behind one that
  is removed is passed over in that frame; the game-over updater is dispatched once for
  every obstacle found to be hit.
\<close>

theorem obstacles_loop_as_list_function:
  "obstaclesLoop sp (g, us)
   = (g\<lparr>obstacles := sweepObstacles g sp (obstacles g)\<rparr>,
      us @ replicate (sweepHits g sp (obstacles g)) (GameOverUpdate (score g)))"
  by (rule obstaclesLoop_sweep)

text \<open>
  X6.  The loop over the gems, for a player at depth 5, is the list function
  \<open>sweepGems\<close>: each gem is moved and tested in array order, except that the gem right
  behind one that is collected or removed is passed over in that frame; every collected
  gem adds 10 to the score and dispatches one score update.
\<close>

theorem gems_loop_as_list_function:
  "pz g = 5 \<Longrightarrow>
   gemsLoop sp (g, us)
   = (g\<lparr>gems := sweepGems g sp (gems g),
         score := score g + 10 * int (sweepCount g sp (gems g))\<rparr>,
      us @ scoreUpdatesFrom (score g) (sweepCount g sp (gems g)))"
  by (rule gemsLoop_sweep)

theorem gems_loop_as_list_function_witness:
  "gemsLoop 0.15 (twoGems, [])
   = (twoGems\<lparr>gems := [\<lparr>gx = Some 0, gy = 1.5, gz = 4.7, grot = 0\<rparr>], score := 10\<rparr>,
      [ScoreUpdate 10])"
proof -
  have p: "pz twoGems = 5"
    by (simp add: twoGems_def)
  have a: "sweepGems twoGems 0.15 (gems twoGems) = [\<lparr>gx = Some 0, gy = 1.5, gz = 4.7, grot = 0\<rparr>]"
    and b: "sweepCount twoGems 0.15 (gems twoGems) = 1"
    by (simp_all add: twoGems_def collects_def near_def moveGem_def)
  have c: "score twoGems = 0"
    by (simp add: twoGems_def)
  from gems_loop_as_list_function [OF p, of "0.15" "[]"] a b c show ?thesis
    by simp
qed

end
